theory Spec2Isabelle
  imports Complex_Main
begin

section \<open>Healthy-structure curvature synthesis (shmdamage/hsmr.py)\<close>

text \<open>
  The module has two functions: the objective \<open>fun\<close> and the driver \<open>synthesis\<close>.
  Both work on one-dimensional NumPy arrays of floats. A float is modelled as a real
  number, an infinity or a NaN, with NumPy's arithmetic on the special values: a
  division by zero yields an infinity or a NaN and raises nothing (NumPy's default
  error state, which warns). Rounding, overflow and the sign of zero are not modelled:
  arithmetic on finite values is exact and every zero is \<open>+0.0\<close>. The exceptions NumPy
  raises (shapes that do not broadcast, a minimum over an empty array) are values of
  the type \<open>error\<close>.
\<close>

subsection \<open>Floats\<close>

datatype f64 = Fin real | PInf | NInf | NaN

fun fneg :: "f64 \<Rightarrow> f64" where
  "fneg (Fin a) = Fin (- a)"
| "fneg PInf = NInf"
| "fneg NInf = PInf"
| "fneg NaN = NaN"

fun fabs :: "f64 \<Rightarrow> f64" where
  "fabs (Fin a) = Fin \<bar>a\<bar>"
| "fabs PInf = PInf"
| "fabs NInf = PInf"
| "fabs NaN = NaN"

fun fadd :: "f64 \<Rightarrow> f64 \<Rightarrow> f64" where
  "fadd NaN b = NaN"
| "fadd a NaN = NaN"
| "fadd (Fin a) (Fin b) = Fin (a + b)"
| "fadd PInf NInf = NaN"
| "fadd NInf PInf = NaN"
| "fadd PInf b = PInf"
| "fadd a PInf = PInf"
| "fadd NInf b = NInf"
| "fadd a NInf = NInf"

definition fsub :: "f64 \<Rightarrow> f64 \<Rightarrow> f64" where
  "fsub a b = fadd a (fneg b)"

fun fmul :: "f64 \<Rightarrow> f64 \<Rightarrow> f64" where
  "fmul NaN b = NaN"
| "fmul a NaN = NaN"
| "fmul (Fin a) (Fin b) = Fin (a * b)"
| "fmul (Fin a) PInf = (if a = 0 then NaN else if 0 < a then PInf else NInf)"
| "fmul (Fin a) NInf = (if a = 0 then NaN else if 0 < a then NInf else PInf)"
| "fmul PInf (Fin b) = (if b = 0 then NaN else if 0 < b then PInf else NInf)"
| "fmul NInf (Fin b) = (if b = 0 then NaN else if 0 < b then NInf else PInf)"
| "fmul PInf PInf = PInf"
| "fmul PInf NInf = NInf"
| "fmul NInf PInf = NInf"
| "fmul NInf NInf = PInf"

text \<open>
  Division: a finite value divided by zero is an infinity of its sign, and a NaN when
  it is zero itself; a finite value divided by an infinity is zero; an infinity divided
  by an infinity is a NaN.
\<close>

fun fdiv :: "f64 \<Rightarrow> f64 \<Rightarrow> f64" where
  "fdiv NaN b = NaN"
| "fdiv a NaN = NaN"
| "fdiv (Fin a) (Fin b) =
     (if b \<noteq> 0 then Fin (a / b) else if a = 0 then NaN else if 0 < a then PInf else NInf)"
| "fdiv (Fin a) PInf = Fin 0"
| "fdiv (Fin a) NInf = Fin 0"
| "fdiv PInf (Fin b) = (if 0 \<le> b then PInf else NInf)"
| "fdiv NInf (Fin b) = (if 0 \<le> b then NInf else PInf)"
| "fdiv PInf PInf = NaN"
| "fdiv PInf NInf = NaN"
| "fdiv NInf PInf = NaN"
| "fdiv NInf NInf = NaN"

text \<open>Comparison: every comparison with a NaN is false.\<close>

fun flt :: "f64 \<Rightarrow> f64 \<Rightarrow> bool" where
  "flt NaN b = False"
| "flt a NaN = False"
| "flt (Fin a) (Fin b) = (a < b)"
| "flt a NInf = False"
| "flt NInf b = True"
| "flt PInf b = False"
| "flt a PInf = True"

fun fle :: "f64 \<Rightarrow> f64 \<Rightarrow> bool" where
  "fle NaN b = False"
| "fle a NaN = False"
| "fle (Fin a) (Fin b) = (a \<le> b)"
| "fle NInf b = True"
| "fle a PInf = True"
| "fle a NInf = False"
| "fle PInf b = False"

text \<open>\<open>np.maximum\<close> and \<open>np.minimum\<close>, which the reductions use: a NaN wins.\<close>

fun fmax :: "f64 \<Rightarrow> f64 \<Rightarrow> f64" where
  "fmax NaN b = NaN"
| "fmax a NaN = NaN"
| "fmax (Fin a) (Fin b) = Fin (max a b)"
| "fmax PInf b = PInf"
| "fmax a PInf = PInf"
| "fmax NInf b = b"
| "fmax a NInf = a"

fun fmin :: "f64 \<Rightarrow> f64 \<Rightarrow> f64" where
  "fmin NaN b = NaN"
| "fmin a NaN = NaN"
| "fmin (Fin a) (Fin b) = Fin (min a b)"
| "fmin NInf b = NInf"
| "fmin a NInf = NInf"
| "fmin PInf b = b"
| "fmin a PInf = a"

fun fsqrt :: "f64 \<Rightarrow> f64" where
  "fsqrt (Fin a) = (if 0 \<le> a then Fin (sqrt a) else NaN)"
| "fsqrt PInf = PInf"
| "fsqrt NInf = NaN"
| "fsqrt NaN = NaN"

text \<open>
  \<open>b ** e\<close> for a real exponent. The module raises absolute values and sums of them
  only, so a negative base is not reached; NumPy gives a NaN there for an exponent that
  is not an integer. Zero to a negative power is an infinity.
\<close>

fun fpowr :: "f64 \<Rightarrow> real \<Rightarrow> f64" where
  "fpowr (Fin a) e =
     (if e = 0 then Fin 1
      else if 0 < a then Fin (a powr e)
      else if a = 0 then (if 0 < e then Fin 0 else PInf)
      else NaN)"
| "fpowr PInf e = (if e = 0 then Fin 1 else if 0 < e then PInf else Fin 0)"
| "fpowr NInf e = (if e = 0 then Fin 1 else NaN)"
| "fpowr NaN e = (if e = 0 then Fin 1 else NaN)"

text \<open>The values that are not finite, and those a norm of them can take.\<close>

definition nonfinite :: "f64 \<Rightarrow> bool" where
  "nonfinite v \<longleftrightarrow> (v = PInf \<or> v = NInf \<or> v = NaN)"

definition inf_or_nan :: "f64 \<Rightarrow> bool" where
  "inf_or_nan v \<longleftrightarrow> (v = PInf \<or> v = NaN)"

subsection \<open>Errors\<close>

datatype error =
    BroadcastError        \<comment> \<open>ValueError: operands could not be broadcast together\<close>
  | EmptyReductionError   \<comment> \<open>ValueError: zero-size array to reduction operation\<close>
  | IndexError            \<comment> \<open>IndexError: index out of bounds\<close>
  | SolverError           \<comment> \<open>an exception raised by the minimizer itself\<close>

definition bindE :: "error + 'a \<Rightarrow> ('a \<Rightarrow> error + 'b) \<Rightarrow> error + 'b" where
  "bindE r f = (case r of Inl e \<Rightarrow> Inl e | Inr v \<Rightarrow> f v)"

subsection \<open>The NumPy operations the module calls\<close>

type_synonym vec = "f64 list"

definition arange :: "nat \<Rightarrow> vec" where
  "arange n = map (\<lambda>i. Fin (real i)) [0..<n]"

fun cumsum_from :: "f64 \<Rightarrow> vec \<Rightarrow> vec" where
  "cumsum_from acc [] = []"
| "cumsum_from acc (v # vs) = fadd acc v # cumsum_from (fadd acc v) vs"

definition cumsum :: "vec \<Rightarrow> vec" where
  "cumsum vs = cumsum_from (Fin 0) vs"

definition fsum :: "vec \<Rightarrow> f64" where
  "fsum vs = foldr fadd vs (Fin 0)"

definition vadd_s :: "vec \<Rightarrow> f64 \<Rightarrow> vec" where
  "vadd_s a s = map (\<lambda>v. fadd v s) a"

definition vmul_s :: "vec \<Rightarrow> f64 \<Rightarrow> vec" where
  "vmul_s a s = map (\<lambda>v. fmul v s) a"

definition vdiv_s :: "vec \<Rightarrow> f64 \<Rightarrow> vec" where
  "vdiv_s a s = map (\<lambda>v. fdiv v s) a"

text \<open>
  An elementwise operation on two one-dimensional arrays: equal lengths combine
  index by index, an array of length one is stretched to the other's length, any other
  pair of lengths raises.
\<close>

definition broadcast2 :: "(f64 \<Rightarrow> f64 \<Rightarrow> f64) \<Rightarrow> vec \<Rightarrow> vec \<Rightarrow> error + vec" where
  "broadcast2 f a b =
     (if length a = length b then Inr (map2 f a b)
      else if length a = 1 then Inr (map (f (hd a)) b)
      else if length b = 1 then Inr (map (\<lambda>v. f v (hd b)) a)
      else Inl BroadcastError)"

text \<open>
  \<open>np.linalg.norm(v, ord)\<close> on a one-dimensional array. The order is \<open>np.inf\<close>,
  \<open>-np.inf\<close> or an integer. For the order \<open>np.inf\<close> the maximum is taken with the initial
  value \<open>0\<close>, so that an empty array has norm \<open>0.0\<close>, as in NumPy 2.4; earlier releases
  raise there, and no theorem below depends on which of the two it is: where the norm
  of an input matters, the input is not empty. For the order \<open>-np.inf\<close> an empty array
  raises.
\<close>

datatype norm_ord = OrdInf | OrdNegInf | Ord int

definition max_abs :: "vec \<Rightarrow> f64" where
  "max_abs v = foldr fmax (map fabs v) (Fin 0)"

definition min_abs :: "vec \<Rightarrow> f64" where
  "min_abs v = foldr fmin (map fabs v) PInf"

definition norm_np :: "vec \<Rightarrow> norm_ord \<Rightarrow> error + f64" where
  "norm_np v ord =
     (case ord of
        OrdInf \<Rightarrow> Inr (max_abs v)
      | OrdNegInf \<Rightarrow> (if v = [] then Inl EmptyReductionError else Inr (min_abs v))
      | Ord p \<Rightarrow>
          Inr (if p = 0 then Fin (real (length (filter (\<lambda>a. a \<noteq> Fin 0) v)))
               else if p = 1 then fsum (map fabs v)
               else if p = 2 then fsqrt (fsum (map (\<lambda>a. fmul a a) v))
               else fpowr (fsum (map (\<lambda>a. fpowr (fabs a) (real_of_int p)) v))
                      (1 / real_of_int p)))"

subsection \<open>The objective: \<open>fun(x, c, m_, norm)\<close>\<close>

text \<open>
  The parameter vector \<open>x\<close> always has the three components the driver packs into it
  (dynamic stiffness, initial shear, initial moment), so it is a triple.
\<close>

type_synonym params = "f64 \<times> f64 \<times> f64"

definition fun_loss :: "params \<Rightarrow> vec \<Rightarrow> vec \<Rightarrow> norm_ord \<Rightarrow> error + f64" where
  "fun_loss x c m_null norm' =
     (case x of (dyn_stiff, s_0, m_0) \<Rightarrow>
        let x_locs = arange (length m_null) in
        bindE (broadcast2 fadd (vadd_s m_null m_0) (vmul_s x_locs s_0)) (\<lambda>M.
        bindE (broadcast2 fsub c (vdiv_s M dyn_stiff)) (\<lambda>error.
        norm_np error norm')))"

text \<open>Lines 9 to 11 alone: the residual array, before its norm is taken.\<close>

definition residual :: "params \<Rightarrow> vec \<Rightarrow> vec \<Rightarrow> error + vec" where
  "residual x c m_null =
     (case x of (dyn_stiff, s_0, m_0) \<Rightarrow>
        let x_locs = arange (length m_null) in
        bindE (broadcast2 fadd (vadd_s m_null m_0) (vmul_s x_locs s_0)) (\<lambda>M.
        broadcast2 fsub c (vdiv_s M dyn_stiff)))"

subsection \<open>The minimizer: \<open>scipy.optimize.minimize(..., method='SLSQP')\<close>\<close>

text \<open>
  SciPy is not part of the repository. What the driver relies on is the calling
  convention: the minimizer receives the objective, a start vector and optionally a box,
  it can do nothing with the objective but evaluate it, an exception of the objective
  passes through it, it may raise on its own, and it returns a result object of which
  the driver reads \<open>x\<close> only. A solver is therefore a finite strategy tree, and the
  algorithm is a parameter \<open>slsqp\<close> of the driver. A bound is a float, infinite when the
  parameter is not bounded on that side.
\<close>

type_synonym bounds = "(f64 \<times> f64) \<times> (f64 \<times> f64) \<times> (f64 \<times> f64)"

record opt_result =
  res_x :: params
  res_success :: bool

datatype solver =
    Return opt_result
  | Raise error
  | Eval params "f64 \<Rightarrow> solver"

primrec run :: "solver \<Rightarrow> (params \<Rightarrow> error + f64) \<Rightarrow> error + opt_result" where
  "run (Return r) f = Inr r"
| "run (Raise e) f = Inl e"
| "run (Eval p k) f = (case f p of Inl e \<Rightarrow> Inl e | Inr v \<Rightarrow> run (k v) f)"

definition minimize ::
  "(params \<Rightarrow> bounds option \<Rightarrow> solver) \<Rightarrow> (params \<Rightarrow> error + f64) \<Rightarrow> params \<Rightarrow> bounds option
     \<Rightarrow> error + opt_result" where
  "minimize slsqp f x0 bnds = run (slsqp x0 bnds) f"

subsection \<open>The driver: \<open>synthesis\<close>\<close>

text \<open>Lines 73 to 75: the moment with null integration constants, normalised, for stage A.\<close>

definition stageA_moment :: "vec \<Rightarrow> vec \<Rightarrow> error + vec" where
  "stageA_moment c q =
     (let m_null = cumsum (cumsum q) in
      bindE (norm_np c OrdInf) (\<lambda>nc.
      let scaled = vmul_s m_null nc in
      bindE (norm_np m_null OrdInf) (\<lambda>nm.
      Inr (vdiv_s scaled nm))))"

text \<open>Line 77: the stage-A call of the minimizer, with the 2-norm and the bounds.\<close>

definition stageA_run ::
  "(params \<Rightarrow> bounds option \<Rightarrow> solver) \<Rightarrow> vec \<Rightarrow> vec \<Rightarrow> params \<Rightarrow> bounds \<Rightarrow> error + opt_result" where
  "stageA_run slsqp c m_null x0 bounds =
     minimize slsqp (\<lambda>x. fun_loss x c m_null (Ord 2)) x0 (Some bounds)"

text \<open>Lines 85 to 87: the same two statements again, for stage B.\<close>

definition stageB_moment :: "vec \<Rightarrow> vec \<Rightarrow> error + vec" where
  "stageB_moment c q =
     (let m_null = cumsum (cumsum q) in
      bindE (norm_np c OrdInf) (\<lambda>nc.
      let scaled = vmul_s m_null nc in
      bindE (norm_np m_null OrdInf) (\<lambda>nm.
      Inr (vdiv_s scaled nm))))"

text \<open>Line 89: the stage-B call, with the caller's norm; it passes no \<open>bounds\<close> argument.\<close>

definition stageB_run ::
  "(params \<Rightarrow> bounds option \<Rightarrow> solver) \<Rightarrow> vec \<Rightarrow> vec \<Rightarrow> norm_ord \<Rightarrow> params \<Rightarrow> error + opt_result" where
  "stageB_run slsqp c m_null norm' x0 =
     minimize slsqp (\<lambda>x. fun_loss x c m_null norm') x0 None"

type_synonym fit = "vec \<times> vec \<times> vec \<times> (string \<rightharpoonup> f64)"

definition synthesis ::
  "(params \<Rightarrow> bounds option \<Rightarrow> solver) \<Rightarrow> vec \<Rightarrow> vec \<Rightarrow> f64 \<Rightarrow> f64 \<Rightarrow> f64 \<Rightarrow> norm_ord
     \<Rightarrow> f64 \<Rightarrow> f64 \<Rightarrow> f64 \<Rightarrow> f64 \<Rightarrow> f64 \<Rightarrow> f64 \<Rightarrow> error + fit" where
  "synthesis slsqp c q dyn_stiff_initial_guess s_0_initial_guess m_0_initial_guess norm'
       dyn_stiff_min dyn_stiff_max s_0_min s_0_max m_0_min m_0_max =
     (let bounds = ((dyn_stiff_min, dyn_stiff_max), (s_0_min, s_0_max), (m_0_min, m_0_max));
          x0 = (dyn_stiff_initial_guess, s_0_initial_guess, m_0_initial_guess)
      in
      bindE (stageA_moment c q) (\<lambda>m_null.
      bindE (stageA_run slsqp c m_null x0 bounds) (\<lambda>res.
      case res_x res of (dyn_stiff, s_0, m_0) \<Rightarrow>
      let x0 = (dyn_stiff, s_0, m_0) in
      bindE (stageB_moment c q) (\<lambda>m_null.
      bindE (stageB_run slsqp c m_null norm' x0) (\<lambda>res.
      case res_x res of (dyn_stiff, s_0, m_0) \<Rightarrow>
      let res_x = (dyn_stiff, s_0, m_0) in
      bindE (broadcast2 fadd (vadd_s m_null m_0) (vmul_s (arange (length m_null)) s_0)) (\<lambda>m.
      let c_h = vdiv_s m dyn_stiff;
          res_x_dict = [''dyn_stiff'' \<mapsto> fst res_x,
                        ''s_0'' \<mapsto> fst (snd res_x),
                        ''m_0'' \<mapsto> snd (snd res_x)]
      in Inr (c_h, m_null, m, res_x_dict)))))))"

text \<open>
  The value of lines 73 to 75 (and of lines 85 to 87), the norms of order \<open>np.inf\<close>
  written out.
\<close>

definition baseline :: "vec \<Rightarrow> vec \<Rightarrow> vec" where
  "baseline c q =
     (let m_null = cumsum (cumsum q)
      in vdiv_s (vmul_s m_null (max_abs c)) (max_abs m_null))"

text \<open>
  Lines 94 to 101 once the shapes are known to agree: the fitted moment, the healthy
  curvature and the dictionary of the three fitted parameters.
\<close>

definition package :: "vec \<Rightarrow> params \<Rightarrow> fit" where
  "package m_null x =
     (case x of (dyn_stiff, s_0, m_0) \<Rightarrow>
        let m = map2 fadd (vadd_s m_null m_0) (vmul_s (arange (length m_null)) s_0)
        in (vdiv_s m dyn_stiff, m_null, m,
            [''dyn_stiff'' \<mapsto> dyn_stiff, ''s_0'' \<mapsto> s_0, ''m_0'' \<mapsto> m_0]))"

subsection \<open>Closed intervals of floats\<close>

definition in_interval :: "f64 \<times> f64 \<Rightarrow> f64 \<Rightarrow> bool" where
  "in_interval b v = (fle (fst b) v \<and> fle v (snd b))"

definition valid_bounds :: "bounds option \<Rightarrow> bool" where
  "valid_bounds bnds =
     (case bnds of
        None \<Rightarrow> True
      | Some (bd, bs, bm) \<Rightarrow>
          \<not> flt (snd bd) (fst bd) \<and> \<not> flt (snd bs) (fst bs) \<and> \<not> flt (snd bm) (fst bm))"

subsection \<open>Two small solvers, to run the driver on concrete inputs\<close>

text \<open>
  Both follow what SLSQP does with its box: a lower end above its upper end is
  rejected with an exception, and a start outside the box is moved into it.
\<close>

definition clip1 :: "f64 \<times> f64 \<Rightarrow> f64 \<Rightarrow> f64" where
  "clip1 b v = fmin (fmax v (fst b)) (snd b)"

definition clip :: "bounds option \<Rightarrow> params \<Rightarrow> params" where
  "clip bnds p =
     (case bnds of
        None \<Rightarrow> p
      | Some (bd, bs, bm) \<Rightarrow>
          (case p of (dyn_stiff, s_0, m_0) \<Rightarrow> (clip1 bd dyn_stiff, clip1 bs s_0, clip1 bm m_0)))"

text \<open>
  \<open>probe_solver ok\<close> evaluates the objective once, at the start moved into the box, and
  returns that point, reporting \<open>ok\<close> as its convergence flag.
\<close>

definition probe_solver :: "bool \<Rightarrow> params \<Rightarrow> bounds option \<Rightarrow> solver" where
  "probe_solver ok x0 bnds =
     (if \<not> valid_bounds bnds then Raise SolverError
      else let p = clip bnds x0
           in Eval p (\<lambda>v. Return \<lparr>res_x = p, res_success = ok\<rparr>))"

text \<open>
  \<open>trial_solver\<close> makes one descent step: it evaluates the objective at the start moved
  into the box and at one trial point (the dynamic stiffness lowered by one, moved into
  the box), and returns the better of the two.
\<close>

definition trial_solver :: "params \<Rightarrow> bounds option \<Rightarrow> solver" where
  "trial_solver x0 bnds =
     (if \<not> valid_bounds bnds then Raise SolverError
      else let p = clip bnds x0;
               t = clip bnds (fsub (fst p) (Fin 1), snd p)
           in Eval p (\<lambda>v. Eval t (\<lambda>w.
                Return \<lparr>res_x = (if flt w v then t else p), res_success = True\<rparr>)))"

text \<open>The same strategy, reporting \<open>ok\<close> as the convergence flag wherever it returns.\<close>

primrec with_flag :: "bool \<Rightarrow> solver \<Rightarrow> solver" where
  "with_flag ok (Return r) = Return (r\<lparr>res_success := ok\<rparr>)"
| "with_flag ok (Raise e) = Raise e"
| "with_flag ok (Eval p k) = Eval p (\<lambda>v. with_flag ok (k v))"

section \<open>The same code over a store of arrays\<close>

text \<open>
  NumPy arrays are mutable objects that the functions receive by reference. To state
  what a call does to the arrays it is given, the code is modelled a second time over a
  store: a list of arrays in which an address is an index. Every NumPy expression of the
  module (\<open>np.array\<close>, \<open>np.arange\<close>, \<open>np.cumsum\<close>, \<open>+\<close>, \<open>-\<close>, \<open>*\<close>, \<open>/\<close>)
  returns a new array, which the store appends; the module has no subscript assignment,
  no augmented assignment and no \<open>out=\<close> argument. Floats are immutable values and stay
  outside the store. An address is assumed to be live (below the length of the store),
  as a Python reference always is.
\<close>

type_synonym addr = nat
type_synonym store = "vec list"
type_synonym 'a prog = "store \<Rightarrow> (error + 'a) \<times> store"

definition ret :: "'a \<Rightarrow> 'a prog" where
  "ret v h = (Inr v, h)"

definition lift :: "error + 'a \<Rightarrow> 'a prog" where
  "lift r h = (r, h)"

definition bindP :: "'a prog \<Rightarrow> ('a \<Rightarrow> 'b prog) \<Rightarrow> 'b prog" where
  "bindP m f h = (case m h of (Inl e, h') \<Rightarrow> (Inl e, h') | (Inr v, h') \<Rightarrow> f v h')"

definition new :: "vec \<Rightarrow> addr prog" where
  "new v h = (Inr (length h), h @ [v])"

definition get :: "addr \<Rightarrow> vec prog" where
  "get a h = (Inr (h ! a), h)"

definition index :: "addr \<Rightarrow> nat \<Rightarrow> f64 prog" where
  "index a i = bindP (get a) (\<lambda>v. lift (if i < length v then Inr (v ! i) else Inl IndexError))"

definition len :: "addr \<Rightarrow> nat prog" where
  "len a = bindP (get a) (\<lambda>v. ret (length v))"

text \<open>The array operations: each reads its operands and allocates its result.\<close>

definition np_cumsum :: "addr \<Rightarrow> addr prog" where
  "np_cumsum a = bindP (get a) (\<lambda>v. new (cumsum v))"

definition add_s :: "addr \<Rightarrow> f64 \<Rightarrow> addr prog" where
  "add_s a s = bindP (get a) (\<lambda>v. new (vadd_s v s))"

definition mul_s :: "addr \<Rightarrow> f64 \<Rightarrow> addr prog" where
  "mul_s a s = bindP (get a) (\<lambda>v. new (vmul_s v s))"

definition div_s :: "addr \<Rightarrow> f64 \<Rightarrow> addr prog" where
  "div_s a s = bindP (get a) (\<lambda>v. new (vdiv_s v s))"

definition add_a :: "addr \<Rightarrow> addr \<Rightarrow> addr prog" where
  "add_a a b = bindP (get a) (\<lambda>u. bindP (get b) (\<lambda>v. bindP (lift (broadcast2 fadd u v)) new))"

definition sub_a :: "addr \<Rightarrow> addr \<Rightarrow> addr prog" where
  "sub_a a b = bindP (get a) (\<lambda>u. bindP (get b) (\<lambda>v. bindP (lift (broadcast2 fsub u v)) new))"

definition norm_st :: "addr \<Rightarrow> norm_ord \<Rightarrow> f64 prog" where
  "norm_st a ord = bindP (get a) (\<lambda>v. lift (norm_np v ord))"

text \<open>\<open>fun(x, c, m_, norm)\<close>, lines 5 to 13, with \<open>x\<close>, \<open>c\<close> and \<open>m_\<close> as addresses.\<close>

definition fun_st :: "addr \<Rightarrow> addr \<Rightarrow> addr \<Rightarrow> norm_ord \<Rightarrow> f64 prog" where
  "fun_st x c m_null norm' =
     bindP (index x 0) (\<lambda>dyn_stiff.
     bindP (index x 1) (\<lambda>s_0.
     bindP (index x 2) (\<lambda>m_0.
     bindP (len m_null) (\<lambda>n.
     bindP (new (arange n)) (\<lambda>x_locs.
     bindP (add_s m_null m_0) (\<lambda>t1.
     bindP (mul_s x_locs s_0) (\<lambda>t2.
     bindP (add_a t1 t2) (\<lambda>M.
     bindP (div_s M dyn_stiff) (\<lambda>t3.
     bindP (sub_a c t3) (\<lambda>error.
     norm_st error norm'))))))))))"

text \<open>
  The minimizer allocates the array of every point at which it evaluates the objective
  and the array \<open>x\<close> of its result; it reaches \<open>c\<close> and \<open>m_\<close> only through the objective.
\<close>

primrec run_st :: "solver \<Rightarrow> (addr \<Rightarrow> f64 prog) \<Rightarrow> (addr \<times> bool) prog" where
  "run_st (Return r) f =
     (case res_x r of (a, b, c) \<Rightarrow> bindP (new [a, b, c]) (\<lambda>xa. ret (xa, res_success r)))"
| "run_st (Raise e) f = lift (Inl e)"
| "run_st (Eval p k) f =
     (case p of (a, b, c) \<Rightarrow> bindP (new [a, b, c]) (\<lambda>xa. bindP (f xa) (\<lambda>v. run_st (k v) f)))"

definition minimize_st ::
  "(params \<Rightarrow> bounds option \<Rightarrow> solver) \<Rightarrow> (addr \<Rightarrow> f64 prog) \<Rightarrow> addr \<Rightarrow> bounds option
     \<Rightarrow> (addr \<times> bool) prog" where
  "minimize_st slsqp f x0 bnds =
     bindP (get x0) (\<lambda>v. run_st (slsqp (v ! 0, v ! 1, v ! 2) bnds) f)"

text \<open>Lines 73 to 75 and lines 85 to 87.\<close>

definition stageA_moment_st :: "addr \<Rightarrow> addr \<Rightarrow> addr prog" where
  "stageA_moment_st c q =
     bindP (np_cumsum q) (\<lambda>t.
     bindP (np_cumsum t) (\<lambda>m_null.
     bindP (norm_st c OrdInf) (\<lambda>nc.
     bindP (mul_s m_null nc) (\<lambda>scaled.
     bindP (norm_st m_null OrdInf) (\<lambda>nm.
     div_s scaled nm)))))"

definition stageB_moment_st :: "addr \<Rightarrow> addr \<Rightarrow> addr prog" where
  "stageB_moment_st c q =
     bindP (np_cumsum q) (\<lambda>t.
     bindP (np_cumsum t) (\<lambda>m_null.
     bindP (norm_st c OrdInf) (\<lambda>nc.
     bindP (mul_s m_null nc) (\<lambda>scaled.
     bindP (norm_st m_null OrdInf) (\<lambda>nm.
     div_s scaled nm)))))"

type_synonym fit_st = "addr \<times> addr \<times> addr \<times> (string \<rightharpoonup> f64)"

text \<open>Lines 78 to 80 and 90 to 92: the three components of \<open>res.x\<close>.\<close>

definition unpack :: "addr \<Rightarrow> params prog" where
  "unpack xa =
     bindP (index xa 0) (\<lambda>dyn_stiff.
     bindP (index xa 1) (\<lambda>s_0.
     bindP (index xa 2) (\<lambda>m_0.
     ret (dyn_stiff, s_0, m_0))))"

text \<open>Lines 94 to 101: the fitted moment, the healthy curvature, the dictionary.\<close>

definition package_st :: "addr \<Rightarrow> params \<Rightarrow> fit_st prog" where
  "package_st m_null x =
     (case x of (dyn_stiff, s_0, m_0) \<Rightarrow>
        let res_x = (dyn_stiff, s_0, m_0) in
        bindP (add_s m_null m_0) (\<lambda>t1.
        bindP (len m_null) (\<lambda>n.
        bindP (new (arange n)) (\<lambda>x_locs.
        bindP (mul_s x_locs s_0) (\<lambda>t2.
        bindP (add_a t1 t2) (\<lambda>m.
        bindP (div_s m dyn_stiff) (\<lambda>c_h.
        let res_x_dict = [''dyn_stiff'' \<mapsto> fst res_x,
                          ''s_0'' \<mapsto> fst (snd res_x),
                          ''m_0'' \<mapsto> snd (snd res_x)]
        in ret (c_h, m_null, m, res_x_dict))))))))"

text \<open>\<open>synthesis\<close>, lines 69 to 101, with \<open>c\<close> and \<open>q\<close> as addresses.\<close>

definition synthesis_st ::
  "(params \<Rightarrow> bounds option \<Rightarrow> solver) \<Rightarrow> addr \<Rightarrow> addr \<Rightarrow> f64 \<Rightarrow> f64 \<Rightarrow> f64 \<Rightarrow> norm_ord
     \<Rightarrow> f64 \<Rightarrow> f64 \<Rightarrow> f64 \<Rightarrow> f64 \<Rightarrow> f64 \<Rightarrow> f64 \<Rightarrow> fit_st prog" where
  "synthesis_st slsqp c q dyn_stiff_initial_guess s_0_initial_guess m_0_initial_guess norm'
       dyn_stiff_min dyn_stiff_max s_0_min s_0_max m_0_min m_0_max =
     (let bounds = ((dyn_stiff_min, dyn_stiff_max), (s_0_min, s_0_max), (m_0_min, m_0_max)) in
      bindP (new [dyn_stiff_initial_guess, s_0_initial_guess, m_0_initial_guess]) (\<lambda>x0.
      bindP (stageA_moment_st c q) (\<lambda>m_null.
      bindP (minimize_st slsqp (\<lambda>x. fun_st x c m_null (Ord 2)) x0 (Some bounds)) (\<lambda>res.
      bindP (unpack (fst res)) (\<lambda>x.
      bindP (new [fst x, fst (snd x), snd (snd x)]) (\<lambda>x0.
      bindP (stageB_moment_st c q) (\<lambda>m_null.
      bindP (minimize_st slsqp (\<lambda>x. fun_st x c m_null norm') x0 None) (\<lambda>res.
      bindP (unpack (fst res)) (\<lambda>x.
      package_st m_null x)))))))))"

text \<open>A program grows the store: it appends to it and changes nothing that was there.\<close>

definition grows :: "'a prog \<Rightarrow> bool" where
  "grows m \<longleftrightarrow> (\<forall>h. \<exists>ext. snd (m h) = h @ ext)"

text \<open>A store holding \<open>c\<close> at address 0, \<open>q\<close> at 1 and a parameter vector at 2.\<close>

definition example_store :: store where
  "example_store = [[Fin 1], [Fin 1], [Fin 1, Fin 0, Fin 0]]"

section \<open>Notions of the specification\<close>

text \<open>The specification speaks of sequences of real numbers.\<close>

subsection \<open>The objective as the specification words it\<close>

definition residual_spec :: "real \<times> real \<times> real \<Rightarrow> real list \<Rightarrow> real list \<Rightarrow> nat \<Rightarrow> real" where
  "residual_spec x c mbar i =
     (case x of (dynamic_stiffness, initial_shear, initial_moment) \<Rightarrow>
        c ! i - (mbar ! i + initial_moment + real i * initial_shear) / dynamic_stiffness)"

definition p_norm_spec :: "nat \<Rightarrow> nat \<Rightarrow> (nat \<Rightarrow> real) \<Rightarrow> real" where
  "p_norm_spec p n e = root p (\<Sum>i<n. \<bar>e i\<bar> ^ p)"

definition max_norm_spec :: "nat \<Rightarrow> (nat \<Rightarrow> real) \<Rightarrow> real" where
  "max_norm_spec n e = Max ((\<lambda>i. \<bar>e i\<bar>) ` {..<n})"

subsection \<open>The baseline moment as the specification words it\<close>

definition prefix_sum :: "real list \<Rightarrow> real list" where
  "prefix_sum xs = map (\<lambda>i. sum_list (take (Suc i) xs)) [0..<length xs]"

definition inf_norm :: "real list \<Rightarrow> real" where
  "inf_norm xs = Max ((\<lambda>v. \<bar>v\<bar>) ` set xs)"

definition baseline_spec :: "real list \<Rightarrow> real list \<Rightarrow> real list" where
  "baseline_spec c q =
     (let moment = prefix_sum (prefix_sum q);
          scale = inf_norm c / inf_norm moment
      in map (\<lambda>v. v * scale) moment)"

section \<open>Properties\<close>

lemmas numpy_defs = bindE_def broadcast2_def vadd_s_def vmul_s_def vdiv_s_def arange_def
  norm_np_def cumsum_def fsum_def max_abs_def min_abs_def fsub_def

lemmas driver_defs = synthesis_def stageA_moment_def stageB_moment_def stageA_run_def
  stageB_run_def minimize_def fun_loss_def Let_def

lemmas solver_defs = probe_solver_def trial_solver_def clip_def clip1_def valid_bounds_def

subsection \<open>Floats that are finite\<close>

lemma fsum_Fin: "fsum (map Fin xs) = Fin (sum_list xs)"
  by (induction xs) (simp_all add: fsum_def)

lemma fsum_Fin_map: "fsum (map (\<lambda>x. Fin (f x)) xs) = Fin (sum_list (map f xs))"
  using fsum_Fin[of "map f xs"] by (simp add: comp_def)

lemma max_abs_Fin: "max_abs (map Fin xs) = Fin (Max (insert 0 ((\<lambda>v. \<bar>v\<bar>) ` set xs)))"
proof (induction xs)
  case Nil
  then show ?case by (simp add: max_abs_def)
next
  case (Cons a xs)
  let ?S = "insert 0 ((\<lambda>v. \<bar>v\<bar>) ` set xs)"
  have "Max (insert \<bar>a\<bar> ?S) = max \<bar>a\<bar> (Max ?S)"
    by (rule Max_insert) simp_all
  moreover have "insert 0 ((\<lambda>v. \<bar>v\<bar>) ` set (a # xs)) = insert \<bar>a\<bar> ?S" by auto
  moreover have "max_abs (map Fin (a # xs)) = fmax (Fin \<bar>a\<bar>) (max_abs (map Fin xs))"
    by (simp add: max_abs_def)
  ultimately show ?case using Cons.IH by simp
qed

lemma max_abs_inf_norm: "xs \<noteq> [] \<Longrightarrow> max_abs (map Fin xs) = Fin (inf_norm xs)"
proof -
  assume ne: "xs \<noteq> []"
  let ?S = "(\<lambda>v. \<bar>v\<bar>) ` set xs"
  have "0 \<le> Max ?S"
  proof -
    from ne obtain x where "x \<in> set xs" by (cases xs) auto
    then have "\<bar>x\<bar> \<le> Max ?S" by (intro Max_ge) auto
    then show ?thesis by linarith
  qed
  then have "Max (insert 0 ?S) = Max ?S" using ne by (simp add: max_def)
  then show ?thesis by (simp add: max_abs_Fin inf_norm_def)
qed

lemma length_cumsum_from: "length (cumsum_from acc xs) = length xs"
  by (induction xs arbitrary: acc) simp_all

lemma length_cumsum: "length (cumsum xs) = length xs"
  by (simp add: cumsum_def length_cumsum_from)

lemma cumsum_from_Fin_nth:
  "i < length xs \<Longrightarrow>
     cumsum_from (Fin acc) (map Fin xs) ! i = Fin (acc + sum_list (take (Suc i) xs))"
proof (induction xs arbitrary: acc i)
  case Nil
  then show ?case by simp
next
  case (Cons v vs)
  then show ?case by (cases i) (simp_all add: add.assoc)
qed

lemma cumsum_Fin: "cumsum (map Fin xs) = map Fin (prefix_sum xs)"
proof (rule nth_equalityI)
  show "length (cumsum (map Fin xs)) = length (map Fin (prefix_sum xs))"
    by (simp add: length_cumsum prefix_sum_def)
next
  fix i assume "i < length (cumsum (map Fin xs))"
  then have i: "i < length xs" by (simp add: length_cumsum)
  then show "cumsum (map Fin xs) ! i = map Fin (prefix_sum xs) ! i"
    unfolding cumsum_def prefix_sum_def by (simp add: cumsum_from_Fin_nth)
qed

lemma norm_inf_value: "norm_np v OrdInf = Inr (max_abs v)"
  by (simp add: norm_np_def)

lemma stageA_moment_baseline: "stageA_moment c q = Inr (baseline c q)"
  by (simp add: stageA_moment_def baseline_def norm_inf_value bindE_def Let_def)

lemma stageB_moment_unfold: "stageB_moment c q = stageA_moment c q"
  unfolding stageB_moment_def stageA_moment_def by (rule refl)

lemma length_baseline: "length (baseline c q) = length q"
  by (simp add: baseline_def Let_def vdiv_s_def vmul_s_def length_cumsum)

lemma length_prefix_sum: "length (prefix_sum xs) = length xs"
  by (simp add: prefix_sum_def)

lemma baseline_Fin:
  assumes "q \<noteq> []" and "c \<noteq> []" and "inf_norm (prefix_sum (prefix_sum q)) \<noteq> 0"
  shows "baseline (map Fin c) (map Fin q) = map Fin (baseline_spec c q)"
proof -
  have ne: "prefix_sum (prefix_sum q) \<noteq> []"
    using assms(1) length_prefix_sum[of "prefix_sum q"] length_prefix_sum[of q] by auto
  show ?thesis
    using assms(3)
    by (simp add: baseline_def baseline_spec_def Let_def cumsum_Fin max_abs_inf_norm[OF ne]
        max_abs_inf_norm[OF assms(2)] vmul_s_def vdiv_s_def comp_def)
qed

subsection \<open>The objective\<close>

lemma broadcast2_same: "length a = length b \<Longrightarrow> broadcast2 f a b = Inr (map2 f a b)"
  by (simp add: broadcast2_def)

lemma abs_powr_int: "1 \<le> p \<Longrightarrow> \<bar>a::real\<bar> powr real_of_int p = \<bar>a\<bar> ^ nat p"
  by (cases "a = 0") (simp_all add: powr_real_of_int)

lemma powr_inverse_root: "1 \<le> p \<Longrightarrow> 0 \<le> S \<Longrightarrow> S powr (1 / real_of_int p) = root (nat p) S"
  by (cases "S = 0") (simp_all add: root_powr_inverse)

lemma sum_list_nth: "sum_list (map f xs) = (\<Sum>i<length xs. f (xs ! i))"
  by (simp add: sum_list_sum_nth atLeast0LessThan)

lemma moment_shapes_agree:
  "broadcast2 fadd (vadd_s M m0) (vmul_s (arange (length M)) s0)
     = Inr (map2 fadd (vadd_s M m0) (vmul_s (arange (length M)) s0))"
  by (simp add: broadcast2_same vadd_s_def vmul_s_def arange_def)

lemma fpowr_abs_Fin: "3 \<le> p \<Longrightarrow> fpowr (Fin \<bar>a\<bar>) (real_of_int p) = Fin (\<bar>a\<bar> ^ nat p)"
  using abs_powr_int[of p a] by (cases "a = 0") simp_all

lemma fpowr_root_Fin:
  "3 \<le> p \<Longrightarrow> 0 \<le> S \<Longrightarrow> fpowr (Fin S) (1 / real_of_int p) = Fin (root (nat p) S)"
  using powr_inverse_root[of p S] by (cases "S = 0") simp_all

text \<open>
  With finite arrays of one length and a dynamic stiffness that is not zero, the code's
  residual array is the specification's residual.
\<close>

lemma residual_vec:
  assumes "length c = n" "length mbar = n" "k \<noteq> 0"
  shows "fun_loss (Fin k, Fin s, Fin m) (map Fin c) (map Fin mbar) nrm
           = norm_np (map Fin (map (residual_spec (k, s, m) c mbar) [0..<n])) nrm"
proof -
  have M: "broadcast2 fadd (vadd_s (map Fin mbar) (Fin m))
             (vmul_s (arange (length (map Fin mbar))) (Fin s))
        = Inr (map Fin (map (\<lambda>i. mbar ! i + m + real i * s) [0..<n]))"
    using assms by (simp add: broadcast2_same vadd_s_def vmul_s_def arange_def list_eq_iff_nth_eq)
  have E: "broadcast2 fsub (map Fin c)
             (vdiv_s (map Fin (map (\<lambda>i. mbar ! i + m + real i * s) [0..<n])) (Fin k))
        = Inr (map Fin (map (residual_spec (k, s, m) c mbar) [0..<n]))"
    using assms
    by (simp add: broadcast2_same vdiv_s_def residual_spec_def fsub_def list_eq_iff_nth_eq)
  have "fun_loss (Fin k, Fin s, Fin m) (map Fin c) (map Fin mbar) nrm
      = bindE (broadcast2 fadd (vadd_s (map Fin mbar) (Fin m))
                 (vmul_s (arange (length (map Fin mbar))) (Fin s))) (\<lambda>M.
        bindE (broadcast2 fsub (map Fin c) (vdiv_s M (Fin k))) (\<lambda>error.
        norm_np error nrm))"
    unfolding fun_loss_def Let_def prod.case by (rule refl)
  also have "\<dots> = norm_np (map Fin (map (residual_spec (k, s, m) c mbar) [0..<n])) nrm"
    unfolding M bindE_def sum.case E by (rule refl)
  finally show ?thesis .
qed

text \<open>
  C5. For every parameter triple \<open>x\<close> of finite values whose dynamic stiffness is not
  zero, every finite curvature \<open>c\<close> and baseline moment \<open>mbar\<close> of one length \<open>n\<close> and
  every norm order, \<open>fun\<close> returns the norm of that order of the residual
  \<open>e[i] = c[i] - (mbar[i] + initial_moment + i * initial_shear) / dynamic_stiffness\<close>:
  for an integer order \<open>p \<ge> 1\<close> the \<open>p\<close>-norm \<open>(\<Sum>|e[i]|^p)^(1/p)\<close>, and for the infinity
  order (on a non-empty residual) the largest \<open>|e[i]|\<close>. At a dynamic stiffness of zero
  the quotient is not a real number; C9 says what the code returns there.
\<close>

theorem fun_loss_is_p_norm:
  assumes "length c = n" and "length mbar = n" and "dynamic_stiffness \<noteq> 0"
  shows "(1 \<le> p \<longrightarrow>
            fun_loss (Fin dynamic_stiffness, Fin initial_shear, Fin initial_moment)
                (map Fin c) (map Fin mbar) (Ord p)
              = Inr (Fin (p_norm_spec (nat p) n
                       (residual_spec (dynamic_stiffness, initial_shear, initial_moment)
                          c mbar)))) \<and>
         (1 \<le> n \<longrightarrow>
            fun_loss (Fin dynamic_stiffness, Fin initial_shear, Fin initial_moment)
                (map Fin c) (map Fin mbar) OrdInf
              = Inr (Fin (max_norm_spec n
                       (residual_spec (dynamic_stiffness, initial_shear, initial_moment)
                          c mbar))))"
proof (intro conjI impI)
  let ?e = "residual_spec (dynamic_stiffness, initial_shear, initial_moment) c mbar"
  let ?es = "map ?e [0..<n]"
  assume p: "1 \<le> p"
  have nn: "0 \<le> (\<Sum>i<n. \<bar>?e i\<bar> ^ nat p)" by (simp add: sum_nonneg)
  have n2: "0 \<le> (\<Sum>i<n. ?e i * ?e i)" by (simp add: sum_nonneg)
  have sq: "\<And>a::real. a * a = \<bar>a\<bar> ^ 2" by (simp add: power2_eq_square)
  consider "p = 1" | "p = 2" | "3 \<le> p" using p by linarith
  then have "norm_np (map Fin ?es) (Ord p) = Inr (Fin (p_norm_spec (nat p) n ?e))"
  proof cases
    case 1
    then show ?thesis
      by (simp add: norm_np_def p_norm_spec_def fsum_Fin_map sum_list_nth comp_def)
  next
    case 2
    then show ?thesis
      using n2
      by (simp add: norm_np_def p_norm_spec_def fsum_Fin_map sum_list_nth comp_def sqrt_def
          power2_eq_square)
  next
    case 3
    have "fsum (map (\<lambda>a. fpowr (fabs a) (real_of_int p)) (map Fin ?es))
            = Fin (\<Sum>i<n. \<bar>?e i\<bar> ^ nat p)"
      using 3 by (simp add: comp_def fpowr_abs_Fin fsum_Fin_map sum_list_nth del: fpowr.simps)
    then show ?thesis
      using 3 nn
      by (simp add: norm_np_def p_norm_spec_def fpowr_root_Fin del: fpowr.simps)
  qed
  then show "fun_loss (Fin dynamic_stiffness, Fin initial_shear, Fin initial_moment)
                (map Fin c) (map Fin mbar) (Ord p) = Inr (Fin (p_norm_spec (nat p) n ?e))"
    using residual_vec[OF assms] by simp
next
  let ?e = "residual_spec (dynamic_stiffness, initial_shear, initial_moment) c mbar"
  assume n: "1 \<le> n"
  then have ne: "map ?e [0..<n] \<noteq> []" by simp
  have "(\<lambda>v. \<bar>v\<bar>) ` set (map ?e [0..<n]) = (\<lambda>i. \<bar>?e i\<bar>) ` {..<n}"
    by (auto simp: atLeast0LessThan[symmetric])
  then have "inf_norm (map ?e [0..<n]) = max_norm_spec n ?e"
    by (simp add: inf_norm_def max_norm_spec_def del: set_map)
  then have "norm_np (map Fin (map ?e [0..<n])) OrdInf = Inr (Fin (max_norm_spec n ?e))"
    using max_abs_inf_norm[OF ne] by (simp add: norm_inf_value)
  then show "fun_loss (Fin dynamic_stiffness, Fin initial_shear, Fin initial_moment)
                (map Fin c) (map Fin mbar) OrdInf = Inr (Fin (max_norm_spec n ?e))"
    using residual_vec[OF assms] by simp
qed

theorem fun_loss_is_p_norm_witness:
  "fun_loss (Fin 1, Fin 1, Fin 0) [Fin 2, Fin 4] [Fin 1, Fin 3] (Ord 2)
     = Inr (Fin (p_norm_spec 2 2 (residual_spec (1, 1, 0) [2, 4] [1, 3]))) \<and>
   p_norm_spec 2 2 (residual_spec (1, 1, 0) [2, 4] [1, 3]) = 1 \<and>
   fun_loss (Fin 1, Fin 1, Fin 0) [Fin 2, Fin 4] [Fin 1, Fin 3] OrdInf
     = Inr (Fin (max_norm_spec 2 (residual_spec (1, 1, 0) [2, 4] [1, 3]))) \<and>
   max_norm_spec 2 (residual_spec (1, 1, 0) [2, 4] [1, 3]) = 1"
proof -
  have h1: "length [2, 4 :: real] = 2" and h2: "length [1, 3 :: real] = 2"
    and h3: "(1::real) \<noteq> 0" by simp_all
  have v: "p_norm_spec 2 2 (residual_spec (1, 1, 0) [2, 4] [1, 3]) = 1"
    by (simp add: p_norm_spec_def residual_spec_def lessThan_nat_numeral lessThan_Suc
        sqrt_def[symmetric])
  have w: "max_norm_spec 2 (residual_spec (1, 1, 0) [2, 4] [1, 3]) = 1"
    by (simp add: max_norm_spec_def residual_spec_def lessThan_nat_numeral lessThan_Suc)
  show ?thesis
    using fun_loss_is_p_norm[OF h1 h2 h3, of 2 1 0] v w by simp
qed

subsection \<open>Division by a zero stiffness\<close>

lemma fun_loss_residual: "fun_loss x c m nrm = bindE (residual x c m) (\<lambda>e. norm_np e nrm)"
  by (cases x) (simp add: fun_loss_def residual_def Let_def bindE_def split: sum.splits)

lemma fdiv_zero: "nonfinite (fdiv a (Fin 0))"
  by (cases a) (simp_all add: nonfinite_def)

lemma fsub_nonfinite: "nonfinite b \<Longrightarrow> nonfinite (fsub a b)"
  by (cases a; cases b) (simp_all add: nonfinite_def fsub_def)

lemma fabs_nonfinite: "nonfinite a \<Longrightarrow> inf_or_nan (fabs a)"
  by (cases a) (simp_all add: nonfinite_def inf_or_nan_def)

lemma fsquare_nonfinite: "nonfinite a \<Longrightarrow> inf_or_nan (fmul a a)"
  by (cases a) (simp_all add: nonfinite_def inf_or_nan_def)

lemma fadd_big: "inf_or_nan a \<Longrightarrow> inf_or_nan b \<or> b = Fin 0 \<Longrightarrow> inf_or_nan (fadd a b)"
  by (cases a; cases b) (simp_all add: inf_or_nan_def)

lemma fmax_big: "inf_or_nan a \<Longrightarrow> inf_or_nan b \<or> b = Fin 0 \<Longrightarrow> inf_or_nan (fmax a b)"
  by (cases a; cases b) (simp_all add: inf_or_nan_def)

lemma fmin_big: "inf_or_nan a \<Longrightarrow> inf_or_nan b \<Longrightarrow> inf_or_nan (fmin a b)"
  by (cases a; cases b) (simp_all add: inf_or_nan_def)

lemma fsum_big:
  "\<forall>v\<in>set l. inf_or_nan v \<Longrightarrow> inf_or_nan (fsum l) \<or> (l = [] \<and> fsum l = Fin 0)"
  by (induction l) (auto simp: fsum_def intro: fadd_big)

lemma fold_fmax_big:
  "\<forall>v\<in>set l. inf_or_nan v \<Longrightarrow>
     inf_or_nan (foldr fmax l (Fin 0)) \<or> (l = [] \<and> foldr fmax l (Fin 0) = Fin 0)"
  by (induction l) (auto intro: fmax_big)

lemma fold_fmin_big: "\<forall>v\<in>set l. inf_or_nan v \<Longrightarrow> inf_or_nan (foldr fmin l PInf)"
  by (induction l) (auto intro: fmin_big simp: inf_or_nan_def)

lemma fadd_zero_or_nan:
  "a = Fin 0 \<or> a = NaN \<Longrightarrow> b = Fin 0 \<or> b = NaN \<Longrightarrow> fadd a b = Fin 0 \<or> fadd a b = NaN"
  by auto

lemma fsum_zero_or_nan: "\<forall>v\<in>set l. v = Fin 0 \<or> v = NaN \<Longrightarrow> fsum l = Fin 0 \<or> fsum l = NaN"
proof (induction l)
  case Nil
  then show ?case by (simp add: fsum_def)
next
  case (Cons a l)
  then have "fsum l = Fin 0 \<or> fsum l = NaN" by simp
  moreover have "a = Fin 0 \<or> a = NaN" using Cons.prems by simp
  moreover have "fsum (a # l) = fadd a (fsum l)" by (simp add: fsum_def)
  ultimately show ?case using fadd_zero_or_nan by metis
qed

lemma norm_nonfinite:
  assumes ne: "e \<noteq> []" and nf: "\<forall>v\<in>set e. nonfinite v" and ord: "nrm \<noteq> Ord 0"
  shows "norm_np e nrm = Inr PInf \<or> norm_np e nrm = Inr NaN"
proof (cases nrm)
  case OrdInf
  have "\<forall>v\<in>set (map fabs e). inf_or_nan v" using nf by (simp add: fabs_nonfinite)
  from fold_fmax_big[OF this] ne show ?thesis
    by (simp add: OrdInf norm_np_def max_abs_def inf_or_nan_def)
next
  case OrdNegInf
  have "\<forall>v\<in>set (map fabs e). inf_or_nan v" using nf by (simp add: fabs_nonfinite)
  from fold_fmin_big[OF this] ne show ?thesis
    by (simp add: OrdNegInf norm_np_def min_abs_def inf_or_nan_def)
next
  case (Ord p)
  with ord have p0: "p \<noteq> 0" by simp
  consider "p = 1" | "p = 2" | "3 \<le> p" | "p < 0" using p0 by linarith
  then show ?thesis
  proof cases
    case 1
    have "\<forall>v\<in>set (map fabs e). inf_or_nan v" using nf by (simp add: fabs_nonfinite)
    from fsum_big[OF this] ne show ?thesis
      by (simp add: Ord 1 norm_np_def inf_or_nan_def)
  next
    case 2
    have "\<forall>v\<in>set (map (\<lambda>a. fmul a a) e). inf_or_nan v" using nf by (simp add: fsquare_nonfinite)
    from fsum_big[OF this] ne
    have "inf_or_nan (fsum (map (\<lambda>a. fmul a a) e))" by simp
    then have "inf_or_nan (fsqrt (fsum (map (\<lambda>a. fmul a a) e)))"
      by (auto simp: inf_or_nan_def)
    then show ?thesis by (simp add: Ord 2 norm_np_def inf_or_nan_def)
  next
    case 3
    have "\<And>a. nonfinite a \<Longrightarrow> inf_or_nan (fpowr (fabs a) (real_of_int p))"
      using 3 by (auto simp: nonfinite_def inf_or_nan_def)
    then have "\<forall>v\<in>set (map (\<lambda>a. fpowr (fabs a) (real_of_int p)) e). inf_or_nan v"
      using nf by simp
    from fsum_big[OF this] ne
    have "inf_or_nan (fsum (map (\<lambda>a. fpowr (fabs a) (real_of_int p)) e))" by simp
    then have "inf_or_nan (fpowr (fsum (map (\<lambda>a. fpowr (fabs a) (real_of_int p)) e))
                             (1 / real_of_int p))"
      using 3 by (auto simp: inf_or_nan_def)
    then show ?thesis using 3 by (simp add: Ord norm_np_def inf_or_nan_def)
  next
    case 4
    have "\<And>a. nonfinite a \<Longrightarrow>
            fpowr (fabs a) (real_of_int p) = Fin 0 \<or> fpowr (fabs a) (real_of_int p) = NaN"
      using 4 by (auto simp: nonfinite_def)
    then have "\<forall>v\<in>set (map (\<lambda>a. fpowr (fabs a) (real_of_int p)) e). v = Fin 0 \<or> v = NaN"
      using nf by auto
    from fsum_zero_or_nan[OF this]
    have "inf_or_nan (fpowr (fsum (map (\<lambda>a. fpowr (fabs a) (real_of_int p)) e))
                             (1 / real_of_int p))"
      using 4 by (auto simp: inf_or_nan_def)
    then show ?thesis using 4 by (simp add: Ord norm_np_def inf_or_nan_def)
  qed
qed

lemma residual_zero_stiffness:
  assumes "c \<noteq> []" and "mbar \<noteq> []"
    and "length c = length mbar \<or> length c = 1 \<or> length mbar = 1"
  shows "\<exists>e. residual (Fin 0, s_0, m_0) c mbar = Inr e \<and> e \<noteq> [] \<and> (\<forall>v\<in>set e. nonfinite v)"
proof -
  let ?M = "map2 fadd (vadd_s mbar m_0) (vmul_s (arange (length mbar)) s_0)"
  let ?D = "vdiv_s ?M (Fin 0)"
  have lD: "length ?D = length mbar" by (simp add: vdiv_s_def vadd_s_def vmul_s_def arange_def)
  have nD: "\<forall>v\<in>set ?D. nonfinite v" by (auto simp: vdiv_s_def fdiv_zero)
  have r: "residual (Fin 0, s_0, m_0) c mbar = broadcast2 fsub c ?D"
    by (simp add: residual_def Let_def moment_shapes_agree bindE_def)
  have hdD: "nonfinite (hd ?D)" using nD assms(2) lD by (cases ?D) auto
  from assms(3) lD consider "length c = length ?D" | "length c \<noteq> length ?D" "length c = 1"
    | "length c \<noteq> length ?D" "length c \<noteq> 1" "length ?D = 1" by metis
  then show ?thesis
  proof cases
    case 1
    then have "broadcast2 fsub c ?D = Inr (map2 fsub c ?D)" by (simp add: broadcast2_def)
    moreover have "map2 fsub c ?D \<noteq> []" using 1 assms(1) by (cases c; cases ?D) auto
    moreover have "\<forall>v\<in>set (map2 fsub c ?D). nonfinite v"
      using nD by (auto simp: fsub_nonfinite dest: set_zip_rightD)
    ultimately show ?thesis using r by simp
  next
    case 2
    then have "broadcast2 fsub c ?D = Inr (map (fsub (hd c)) ?D)" by (simp add: broadcast2_def)
    moreover have "map (fsub (hd c)) ?D \<noteq> []" using lD assms(2) by auto
    moreover have "\<forall>v\<in>set (map (fsub (hd c)) ?D). nonfinite v"
      using nD by (auto simp: fsub_nonfinite)
    ultimately show ?thesis using r by simp
  next
    case 3
    then have "broadcast2 fsub c ?D = Inr (map (\<lambda>v. fsub v (hd ?D)) c)"
      by (simp add: broadcast2_def)
    moreover have "map (\<lambda>v. fsub v (hd ?D)) c \<noteq> []" using assms(1) by simp
    moreover have "\<forall>v\<in>set (map (\<lambda>v. fsub v (hd ?D)) c). nonfinite v"
      using hdD by (auto simp: fsub_nonfinite)
    ultimately show ?thesis using r by simp
  qed
qed

text \<open>
  C9. With a dynamic stiffness of zero \<open>fun\<close> raises nothing: for all arrays \<open>c\<close> and
  \<open>mbar\<close> that are not empty and whose shapes go together (one length, or one of them of
  length one), whatever floats they and the other two parameters hold, the division by
  zero makes every entry of the residual an infinity or a NaN, and the loss returned is
  \<open>+inf\<close> or NaN. This holds for every norm order but \<open>0\<close>, which is not an order the
  objective's contract admits (a positive integer or infinity): NumPy's order \<open>0\<close>
  counts the entries that are not zero.
\<close>

theorem fun_tolerates_zero_stiffness:
  assumes "c \<noteq> []" and "mbar \<noteq> []"
    and "length c = length mbar \<or> length c = 1 \<or> length mbar = 1"
    and "nrm \<noteq> Ord 0"
  shows "(\<exists>e. residual (Fin 0, s_0, m_0) c mbar = Inr e \<and> e \<noteq> [] \<and>
               (\<forall>v\<in>set e. nonfinite v)) \<and>
         (fun_loss (Fin 0, s_0, m_0) c mbar nrm = Inr PInf \<or>
          fun_loss (Fin 0, s_0, m_0) c mbar nrm = Inr NaN)"
proof -
  from residual_zero_stiffness[OF assms(1-3)] obtain e
    where e: "residual (Fin 0, s_0, m_0) c mbar = Inr e" "e \<noteq> []" "\<forall>v\<in>set e. nonfinite v"
    by blast
  from norm_nonfinite[OF e(2,3) assms(4)]
  have "fun_loss (Fin 0, s_0, m_0) c mbar nrm = Inr PInf \<or>
        fun_loss (Fin 0, s_0, m_0) c mbar nrm = Inr NaN"
    by (simp add: fun_loss_residual e(1) bindE_def)
  then show ?thesis using e by blast
qed

theorem fun_tolerates_zero_stiffness_witness:
  "residual (Fin 0, Fin 0, Fin 0) [Fin 1, Fin 2] [Fin 1, Fin 0] = Inr [NInf, NaN] \<and>
   fun_loss (Fin 0, Fin 0, Fin 0) [Fin 1, Fin 2] [Fin 1, Fin 0] (Ord 1) = Inr NaN \<and>
   fun_loss (Fin 0, Fin 0, Fin 0) [Fin 1, Fin 2] [Fin 1, Fin 3] (Ord 1) = Inr PInf"
proof -
  have h: "[Fin 1, Fin 2] \<noteq> []" "[Fin 1, Fin 0] \<noteq> []" "[Fin 1, Fin 3] \<noteq> []"
    "length [Fin 1, Fin 2] = length [Fin 1, Fin 0] \<or> length [Fin 1, Fin 2] = 1
       \<or> length [Fin 1, Fin 0] = 1"
    "length [Fin 1, Fin 2] = length [Fin 1, Fin 3] \<or> length [Fin 1, Fin 2] = 1
       \<or> length [Fin 1, Fin 3] = 1"
    "Ord 1 \<noteq> Ord 0"
    by simp_all
  have r: "residual (Fin 0, Fin 0, Fin 0) [Fin 1, Fin 2] [Fin 1, Fin 0] = Inr [NInf, NaN]"
    by (simp add: residual_def numpy_defs Let_def)
  have a: "fun_loss (Fin 0, Fin 0, Fin 0) [Fin 1, Fin 2] [Fin 1, Fin 0] (Ord 1) \<noteq> Inr PInf"
    by (simp add: fun_loss_def numpy_defs Let_def)
  have b: "fun_loss (Fin 0, Fin 0, Fin 0) [Fin 1, Fin 2] [Fin 1, Fin 3] (Ord 1) \<noteq> Inr NaN"
    by (simp add: fun_loss_def numpy_defs Let_def)
  show ?thesis
    using fun_tolerates_zero_stiffness[OF h(1,2,4,6), of "Fin 0" "Fin 0"]
      fun_tolerates_zero_stiffness[OF h(1,3,5,6), of "Fin 0" "Fin 0"] r a b
    by simp
qed

text \<open>Arrays whose lengths differ, neither being one, make every evaluation raise.\<close>

lemma fun_loss_broadcast_error:
  assumes "length c \<noteq> length M" "length c \<noteq> 1" "length M \<noteq> 1"
  shows "fun_loss x c M nrm = Inl BroadcastError"
  using assms
  by (simp add: fun_loss_def Let_def moment_shapes_agree bindE_def broadcast2_def vdiv_s_def
      vadd_s_def vmul_s_def arange_def split: prod.splits)

lemma baseline_example:
  "baseline_spec [0, 1, 2, 1, 0] [0, 0, 1, 0, 0] = [0, 0, 2 / 3, 4 / 3, 2]"
  by (simp add: baseline_spec_def prefix_sum_def inf_norm_def Let_def upt_rec)

subsection \<open>The driver\<close>

lemma synthesis_unfold:
  "synthesis slsqp c q g1 g2 g3 nrm dmin dmax smin smax mmin mmax =
     bindE (stageA_run slsqp c (baseline c q) (g1, g2, g3)
              ((dmin, dmax), (smin, smax), (mmin, mmax))) (\<lambda>rA.
     bindE (stageB_run slsqp c (baseline c q) nrm (res_x rA)) (\<lambda>rB.
     Inr (package (baseline c q) (res_x rB))))"
  unfolding synthesis_def Let_def stageB_moment_unfold stageA_moment_baseline moment_shapes_agree
  by (simp add: bindE_def package_def Let_def split: sum.splits prod.splits)

lemma length_package:
  "package M x = (c_h, m_null, m, d) \<Longrightarrow>
     length c_h = length M \<and> length m_null = length M \<and> length m = length M"
  by (auto simp: package_def vdiv_s_def vadd_s_def vmul_s_def arange_def Let_def split: prod.splits)

lemma synthesis_Inr_D:
  assumes "synthesis slsqp c q g1 g2 g3 nrm dmin dmax smin smax mmin mmax = Inr r"
  obtains rA rB where
    "stageA_run slsqp c (baseline c q) (g1, g2, g3) ((dmin, dmax), (smin, smax), (mmin, mmax))
       = Inr rA"
    and "stageB_run slsqp c (baseline c q) nrm (res_x rA) = Inr rB"
    and "r = package (baseline c q) (res_x rB)"
  using assms unfolding synthesis_unfold
  by (auto simp: bindE_def split: sum.splits)

lemma scenario_output:
  "synthesis (probe_solver True) (map Fin [0, 1, 2, 1, 0]) (map Fin [0, 0, 1, 0, 0])
       (Fin 1) (Fin 0) (Fin 0) (Ord 1) NInf PInf NInf PInf NInf PInf
     = Inr (map Fin [0, 0, 2 / 3, 4 / 3, 2], map Fin [0, 0, 2 / 3, 4 / 3, 2],
            map Fin [0, 0, 2 / 3, 4 / 3, 2],
            [''dyn_stiff'' \<mapsto> Fin 1, ''s_0'' \<mapsto> Fin 0, ''m_0'' \<mapsto> Fin 0])"
  by (simp add: driver_defs numpy_defs solver_defs upt_rec)

text \<open>
  C6. For every pair \<open>c\<close>, \<open>q\<close> of finite sequences of one length \<open>n \<ge> 1\<close> whose double
  prefix sum is not zero everywhere, the baseline moment of both stages, which is also
  the one \<open>synthesis\<close> returns, is the double prefix sum of \<open>q\<close> with every element
  multiplied by \<open>scale\<close>, the maximum absolute value of \<open>c\<close> divided by the maximum
  absolute value of the double prefix sum. (Where the double prefix sum is zero
  everywhere the code divides zero by zero and the moment is NaN throughout.)
\<close>

theorem baseline_moment_is_scaled_double_prefix_sum:
  assumes "length c = n" and "length q = n" and "1 \<le> n"
    and "inf_norm (prefix_sum (prefix_sum q)) \<noteq> 0"
  shows "stageA_moment (map Fin c) (map Fin q) = Inr (map Fin (baseline_spec c q)) \<and>
         stageB_moment (map Fin c) (map Fin q) = Inr (map Fin (baseline_spec c q)) \<and>
         (synthesis slsqp (map Fin c) (map Fin q) g1 g2 g3 nrm dmin dmax smin smax mmin mmax
            = Inr (c_h, m_null, m, d)
            \<longrightarrow> m_null = map Fin (baseline_spec c q))"
proof -
  have ne: "q \<noteq> []" "c \<noteq> []" using assms by auto
  have A: "stageA_moment (map Fin c) (map Fin q) = Inr (map Fin (baseline_spec c q))"
    by (simp add: stageA_moment_baseline baseline_Fin[OF ne assms(4)])
  have out: "m_null = map Fin (baseline_spec c q)"
    if "synthesis slsqp (map Fin c) (map Fin q) g1 g2 g3 nrm dmin dmax smin smax mmin mmax
          = Inr (c_h, m_null, m, d)"
  proof -
    from that obtain rB :: opt_result
      where r: "(c_h, m_null, m, d) = package (baseline (map Fin c) (map Fin q)) (res_x rB)"
      by (auto elim: synthesis_Inr_D)
    from r have "m_null = baseline (map Fin c) (map Fin q)"
      by (simp add: package_def Let_def split: prod.splits)
    then show ?thesis by (simp add: baseline_Fin[OF ne assms(4)])
  qed
  show ?thesis using A out by (simp add: stageB_moment_unfold)
qed

theorem baseline_moment_witness:
  "stageA_moment (map Fin [0, 1, 2, 1, 0]) (map Fin [0, 0, 1, 0, 0])
     = Inr (map Fin [0, 0, 2 / 3, 4 / 3, 2]) \<and>
   stageB_moment (map Fin [0, 1, 2, 1, 0]) (map Fin [0, 0, 1, 0, 0])
     = Inr (map Fin [0, 0, 2 / 3, 4 / 3, 2]) \<and>
   baseline_spec [0, 1, 2, 1, 0] [0, 0, 1, 0, 0] = [0, 0, 2 / 3, 4 / 3, 2] \<and>
   inf_norm (prefix_sum (prefix_sum [0, 0, 1, 0, 0])) = 3 \<and>
   \<not> isl (synthesis (probe_solver True) (map Fin [0, 1, 2, 1, 0]) (map Fin [0, 0, 1, 0, 0])
            (Fin 1) (Fin 0) (Fin 0) (Ord 1) NInf PInf NInf PInf NInf PInf)"
proof -
  have h1: "length [0, 1, 2, 1, 0 :: real] = 5" and h2: "length [0, 0, 1, 0, 0 :: real] = 5"
    and h3: "(1::nat) \<le> 5" by simp_all
  have h4: "inf_norm (prefix_sum (prefix_sum [0, 0, 1, 0, 0])) = 3"
    by (simp add: prefix_sum_def inf_norm_def upt_rec)
  then have h5: "inf_norm (prefix_sum (prefix_sum [0, 0, 1, 0, 0])) \<noteq> 0" by simp
  show ?thesis
    using baseline_moment_is_scaled_double_prefix_sum[OF h1 h2 h3 h5,
        where slsqp = "probe_solver True" and ?g1.0 = "Fin 1" and ?g2.0 = "Fin 0"
        and ?g3.0 = "Fin 0"
        and nrm = "Ord 1" and dmin = NInf and dmax = PInf and smin = NInf and smax = PInf
        and mmin = NInf and mmax = PInf and c_h = "map Fin [0, 0, 2 / 3, 4 / 3, 2]"
        and m_null = "map Fin [0, 0, 2 / 3, 4 / 3, 2]" and m = "map Fin [0, 0, 2 / 3, 4 / 3, 2]"
        and d = "[''dyn_stiff'' \<mapsto> Fin 1, ''s_0'' \<mapsto> Fin 0, ''m_0'' \<mapsto> Fin 0]"]
      baseline_example scenario_output h4
    by simp
qed

text \<open>
  C8. For all inputs \<open>c\<close>, \<open>q\<close> of one length \<open>n \<ge> 1\<close>, each of the three sequences that
  \<open>synthesis\<close> returns (the healthy curvature, the baseline moment, the fitted moment) has
  length exactly \<open>n\<close>.
\<close>

theorem synthesis_length_preservation:
  assumes "length c = n" and "length q = n" and "1 \<le> n"
    and "synthesis slsqp c q g1 g2 g3 nrm dmin dmax smin smax mmin mmax = Inr (c_h, m_null, m, d)"
  shows "length c_h = n \<and> length m_null = n \<and> length m = n"
proof -
  from assms(4) obtain rB :: opt_result
    where r: "(c_h, m_null, m, d) = package (baseline c q) (res_x rB)"
    by (auto elim: synthesis_Inr_D)
  have "length (baseline c q) = n" using assms(2) by (simp add: length_baseline)
  then show ?thesis using length_package[OF r[symmetric]] by simp
qed

theorem synthesis_length_preservation_witness:
  "synthesis (probe_solver True) (map Fin [0, 1, 2, 1, 0]) (map Fin [0, 0, 1, 0, 0])
       (Fin 1) (Fin 0) (Fin 0) (Ord 1) NInf PInf NInf PInf NInf PInf
     = Inr (map Fin [0, 0, 2 / 3, 4 / 3, 2], map Fin [0, 0, 2 / 3, 4 / 3, 2],
            map Fin [0, 0, 2 / 3, 4 / 3, 2],
            [''dyn_stiff'' \<mapsto> Fin 1, ''s_0'' \<mapsto> Fin 0, ''m_0'' \<mapsto> Fin 0]) \<and>
   length (map Fin [0, 0, 2 / 3, 4 / 3, 2]) = 5"
proof -
  have h1: "length (map Fin [0, 1, 2, 1, 0]) = 5" and h2: "length (map Fin [0, 0, 1, 0, 0]) = 5"
    and h3: "(1::nat) \<le> 5" by simp_all
  show ?thesis
    using synthesis_length_preservation[OF h1 h2 h3 scenario_output] scenario_output by simp
qed

text \<open>
  C1. The claim: stage B is minimised subject to the caller's bound intervals, so each
  returned parameter lies within its interval. The docstring calls the six bound
  arguments the allowable limits of the fit search, and stage A (line 77) passes them
  to the minimizer; the stage-B call (line 89) leaves the \<open>bounds\<close> argument out. With
  \<open>c = [1]\<close>, \<open>q = [1]\<close>, the guess \<open>(2, 0, 0)\<close> and the intervals \<open>[2, 3]\<close>,
  \<open>[-1, 1]\<close>, \<open>[-1, 0]\<close> the loss inside the box is least at the guess itself, stage B
  descends freely from there, and the returned dynamic stiffness \<open>1\<close> is below its lower
  bound \<open>2\<close>.
\<close>

theorem synthesis_stage_B_leaves_bounds:
  "synthesis trial_solver [Fin 1] [Fin 1] (Fin 2) (Fin 0) (Fin 0) (Ord 1)
       (Fin 2) (Fin 3) (Fin (-1)) (Fin 1) (Fin (-1)) (Fin 0)
     = Inr ([Fin 1], [Fin 1], [Fin 1],
            [''dyn_stiff'' \<mapsto> Fin 1, ''s_0'' \<mapsto> Fin 0, ''m_0'' \<mapsto> Fin 0]) \<and>
   in_interval (Fin 2, Fin 3) (Fin 2) \<and> \<not> in_interval (Fin 2, Fin 3) (Fin 1)"
  by (simp add: driver_defs numpy_defs solver_defs in_interval_def)

text \<open>
  C2, as the specification states it: a call with \<open>c\<close> and \<open>q\<close> of different lengths is
  rejected. It is not: with \<open>c\<close> of length one and \<open>q\<close> of length three the subtraction
  in the objective broadcasts, and the call returns three sequences of length three.
\<close>

theorem synthesis_accepts_length_mismatch:
  "length [Fin 1] \<noteq> length [Fin 1, Fin 1, Fin 1] \<and>
   \<not> isl (synthesis (probe_solver True) [Fin 1] [Fin 1, Fin 1, Fin 1] (Fin 1) (Fin 0) (Fin 0)
            (Ord 1) NInf PInf NInf PInf NInf PInf)"
  by (simp add: driver_defs numpy_defs solver_defs upt_rec)

text \<open>
  C2, amended. \<open>synthesis\<close> has no length check of its own. If \<open>c\<close> and \<open>q\<close> are not
  empty, their lengths differ and neither length is one, then the call fails: the first
  evaluation of the objective by the stage-A minimizer raises a broadcasting error,
  which ends the call. If both are non-empty and one of them has length one, no
  evaluation of the objective raises a broadcasting error: the difference of the
  lengths goes unnoticed.
\<close>

theorem synthesis_length_errors:
  "(c \<noteq> [] \<and> q \<noteq> [] \<and> length c \<noteq> length q \<and> length c \<noteq> 1 \<and> length q \<noteq> 1 \<and>
    slsqp (g1, g2, g3) (Some ((dmin, dmax), (smin, smax), (mmin, mmax))) = Eval p k \<longrightarrow>
      synthesis slsqp c q g1 g2 g3 nrm dmin dmax smin smax mmin mmax = Inl BroadcastError) \<and>
   (c \<noteq> [] \<and> q \<noteq> [] \<and> (length c = 1 \<or> length q = 1) \<longrightarrow>
      stageA_moment c q = Inr (baseline c q) \<and>
      fun_loss x c (baseline c q) nrm \<noteq> Inl BroadcastError)"
proof (intro conjI impI)
  assume a: "c \<noteq> [] \<and> q \<noteq> [] \<and> length c \<noteq> length q \<and> length c \<noteq> 1 \<and> length q \<noteq> 1 \<and>
    slsqp (g1, g2, g3) (Some ((dmin, dmax), (smin, smax), (mmin, mmax))) = Eval p k"
  have "fun_loss p c (baseline c q) (Ord 2) = Inl BroadcastError"
    using a by (intro fun_loss_broadcast_error) (simp_all add: length_baseline)
  then have "stageA_run slsqp c (baseline c q) (g1, g2, g3)
               ((dmin, dmax), (smin, smax), (mmin, mmax)) = Inl BroadcastError"
    using a by (simp add: stageA_run_def minimize_def)
  then show "synthesis slsqp c q g1 g2 g3 nrm dmin dmax smin smax mmin mmax = Inl BroadcastError"
    unfolding synthesis_unfold by (simp add: bindE_def)
next
  assume a: "c \<noteq> [] \<and> q \<noteq> [] \<and> (length c = 1 \<or> length q = 1)"
  show "stageA_moment c q = Inr (baseline c q)" by (rule stageA_moment_baseline)
  have "length c = length (baseline c q) \<or> length c = 1 \<or> length (baseline c q) = 1"
    using a by (auto simp: length_baseline)
  then show "fun_loss x c (baseline c q) nrm \<noteq> Inl BroadcastError"
    by (cases x)
       (auto simp: fun_loss_def Let_def moment_shapes_agree bindE_def broadcast2_def vdiv_s_def
          vadd_s_def vmul_s_def arange_def norm_np_def split: norm_ord.splits)
qed

theorem synthesis_length_errors_witness:
  "synthesis (probe_solver True) [Fin 1, Fin 2] [Fin 1, Fin 1, Fin 1] (Fin 1) (Fin 0) (Fin 0)
       (Ord 1) NInf PInf NInf PInf NInf PInf
     = Inl BroadcastError \<and>
   fun_loss (Fin 1, Fin 0, Fin 0) [Fin 1] (baseline [Fin 1] [Fin 1, Fin 1, Fin 1]) (Ord 1)
     \<noteq> Inl BroadcastError"
proof -
  have e: "probe_solver True (Fin 1, Fin 0, Fin 0) (Some ((NInf, PInf), (NInf, PInf), (NInf, PInf)))
             = Eval (Fin 1, Fin 0, Fin 0)
                 (\<lambda>v. Return \<lparr>res_x = (Fin 1, Fin 0, Fin 0), res_success = True\<rparr>)"
    by (simp add: solver_defs Let_def)
  show ?thesis
    using synthesis_length_errors[where c = "[Fin 1, Fin 2]" and q = "[Fin 1, Fin 1, Fin 1]"
        and slsqp = "probe_solver True"
        and ?g1.0 = "Fin 1" and ?g2.0 = "Fin 0" and ?g3.0 = "Fin 0" and nrm = "Ord 1"
        and dmin = NInf and dmax = PInf
        and smin = NInf and smax = PInf and mmin = NInf and mmax = PInf
        and p = "(Fin 1, Fin 0, Fin 0)"
        and k = "\<lambda>v. Return \<lparr>res_x = (Fin 1, Fin 0, Fin 0), res_success = True\<rparr>"]
      synthesis_length_errors[where c = "[Fin 1]" and q = "[Fin 1, Fin 1, Fin 1]"
        and x = "(Fin 1, Fin 0, Fin 0)" and nrm = "Ord 1"] e
    by simp
qed

text \<open>
  C3, as the specification states it: the returned value carries the minimizer's
  convergence flag. It does not: a run whose minimizer reports convergence in both
  stages and a run whose minimizer reports failure in both return the same value.
\<close>

theorem synthesis_same_result_for_both_flags:
  "synthesis (probe_solver True) [Fin 1] [Fin 1] (Fin 1) (Fin 0) (Fin 0) (Ord 1)
       NInf PInf NInf PInf NInf PInf
     = synthesis (probe_solver False) [Fin 1] [Fin 1] (Fin 1) (Fin 0) (Fin 0) (Ord 1)
         NInf PInf NInf PInf NInf PInf \<and>
   \<not> isl (synthesis (probe_solver False) [Fin 1] [Fin 1] (Fin 1) (Fin 0) (Fin 0) (Ord 1)
            NInf PInf NInf PInf NInf PInf) \<and>
   stageB_run (probe_solver True) [Fin 1] [Fin 1] (Ord 1) (Fin 1, Fin 0, Fin 0)
     = Inr \<lparr>res_x = (Fin 1, Fin 0, Fin 0), res_success = True\<rparr> \<and>
   stageB_run (probe_solver False) [Fin 1] [Fin 1] (Ord 1) (Fin 1, Fin 0, Fin 0)
     = Inr \<lparr>res_x = (Fin 1, Fin 0, Fin 0), res_success = False\<rparr>"
  by (simp add: driver_defs numpy_defs solver_defs)

lemma run_with_flag:
  "run (with_flag ok s) f = map_sum id (\<lambda>r. r\<lparr>res_success := ok\<rparr>) (run s f)"
  by (induction s) (auto split: sum.splits)

text \<open>
  C3, amended. The value \<open>synthesis\<close> returns is the four-tuple of the healthy curvature,
  the baseline moment, the fitted moment and the dictionary of the three fitted
  parameters; it is computed from the iterate \<open>x\<close> of the minimizer's result alone. The
  convergence flag is dropped: whatever flag the minimizer reports, in either stage,
  the call returns the same value, and it raises no exception on non-convergence.
\<close>

theorem synthesis_discards_convergence_flag:
  "synthesis (\<lambda>x0 bnds. with_flag ok (slsqp x0 bnds)) c q g1 g2 g3 nrm dmin dmax smin smax mmin mmax
     = synthesis slsqp c q g1 g2 g3 nrm dmin dmax smin smax mmin mmax"
  unfolding synthesis_unfold stageA_run_def stageB_run_def minimize_def run_with_flag
  by (auto simp: bindE_def split: sum.splits)

text \<open>
  C4, as the specification states it: a call whose initial guess lies outside its bound
  interval is rejected. It is not: the guess \<open>5\<close> for an interval \<open>[2, 3]\<close> is passed to
  the minimizer as it is, which moves it into the box, and the call returns.
\<close>

theorem synthesis_accepts_guess_outside_bounds:
  "\<not> in_interval (Fin 2, Fin 3) (Fin 5) \<and>
   \<not> isl (synthesis (probe_solver True) [Fin 1] [Fin 1] (Fin 5) (Fin 0) (Fin 0) (Ord 1)
            (Fin 2) (Fin 3) NInf PInf NInf PInf)"
  by (simp add: driver_defs numpy_defs solver_defs in_interval_def)

text \<open>
  C4, amended. \<open>synthesis\<close> checks neither the bound intervals nor the initial guesses:
  it hands them unchanged to the stage-A minimizer. For non-empty \<open>c\<close> and \<open>q\<close> the call
  fails with an error exactly when one of the two minimizer runs fails with it; so a
  rejection of the bounds can only come from the minimizer, and one that it raises
  reaches the caller.
\<close>

theorem synthesis_fails_only_in_minimizer:
  assumes "c \<noteq> []" and "q \<noteq> []"
  shows "synthesis slsqp c q g1 g2 g3 nrm dmin dmax smin smax mmin mmax = Inl e \<longleftrightarrow>
           stageA_run slsqp c (baseline c q) (g1, g2, g3)
               ((dmin, dmax), (smin, smax), (mmin, mmax)) = Inl e \<or>
           (\<exists>rA. stageA_run slsqp c (baseline c q) (g1, g2, g3)
                    ((dmin, dmax), (smin, smax), (mmin, mmax)) = Inr rA \<and>
                 stageB_run slsqp c (baseline c q) nrm (res_x rA) = Inl e)"
  unfolding synthesis_unfold
  by (auto simp: bindE_def split: sum.splits)

theorem synthesis_fails_only_in_minimizer_witness:
  "[Fin 1] \<noteq> [] \<and>
   synthesis (probe_solver True) [Fin 1] [Fin 1] (Fin 1) (Fin 0) (Fin 0) (Ord 1)
       (Fin 3) (Fin 2) NInf PInf NInf PInf
     = Inl SolverError"
proof -
  have ne: "[Fin 1] \<noteq> []" by simp
  have "stageA_run (probe_solver True) [Fin 1] (baseline [Fin 1] [Fin 1]) (Fin 1, Fin 0, Fin 0)
          ((Fin 3, Fin 2), (NInf, PInf), (NInf, PInf))
          = Inl SolverError"
    by (simp add: stageA_run_def minimize_def solver_defs)
  then show ?thesis
    using synthesis_fails_only_in_minimizer[OF ne ne, where slsqp = "probe_solver True"
        and ?g1.0 = "Fin 1" and ?g2.0 = "Fin 0" and ?g3.0 = "Fin 0" and nrm = "Ord 1"
        and dmin = "Fin 3" and dmax = "Fin 2"
        and smin = NInf and smax = PInf and mmin = NInf and mmax = PInf and e = SolverError]
    by simp
qed

subsection \<open>The store model: frame and agreement with the model over values\<close>

text \<open>Running the primitives.\<close>

lemma bindP_new [simp]: "bindP (new v) f h = f (length h) (h @ [v])"
  by (simp add: bindP_def new_def)

lemma bindP_get [simp]: "bindP (get a) f h = f (h ! a) h"
  by (simp add: bindP_def get_def)

lemma bindP_ret [simp]: "bindP (ret v) f h = f v h"
  by (simp add: bindP_def ret_def)

lemma bindP_lift [simp]:
  "bindP (lift r) f h = (case r of Inl e \<Rightarrow> (Inl e, h) | Inr v \<Rightarrow> f v h)"
  by (simp add: bindP_def lift_def split: sum.splits)

lemma bindP_assoc: "bindP (bindP m f) g = bindP m (\<lambda>v. bindP (f v) g)"
  by (rule ext) (simp add: bindP_def split: prod.splits sum.splits)


lemma grows_ret: "grows (ret v)" by (simp add: grows_def ret_def)
lemma grows_lift: "grows (lift r)" by (simp add: grows_def lift_def)
lemma grows_new: "grows (new v)" by (simp add: grows_def new_def)
lemma grows_get: "grows (get a)" by (simp add: grows_def get_def)

lemma grows_bindP:
  assumes "grows m" and "\<And>v. grows (f v)"
  shows "grows (bindP m f)"
  unfolding grows_def
proof
  fix h
  obtain r h1 where mh: "m h = (r, h1)" by (cases "m h")
  from assms(1) mh obtain e1 where h1: "h1 = h @ e1" by (auto simp: grows_def dest: spec[of _ h])
  show "\<exists>ext. snd (bindP m f h) = h @ ext"
  proof (cases r)
    case (Inl e)
    then show ?thesis using mh h1 by (simp add: bindP_def)
  next
    case (Inr v)
    from assms(2)[of v] obtain e2 where "snd (f v h1) = h1 @ e2"
      by (auto simp: grows_def dest: spec[of _ h1])
    then show ?thesis using mh h1 Inr by (simp add: bindP_def)
  qed
qed

lemmas grows_intros = grows_bindP grows_ret grows_lift grows_new grows_get

lemma grows_fun_st: "grows (fun_st x c m nrm)"
  unfolding fun_st_def index_def len_def add_s_def mul_s_def div_s_def add_a_def sub_a_def norm_st_def
  by (intro grows_intros)

lemma grows_run_st: "(\<And>a. grows (f a)) \<Longrightarrow> grows (run_st s f)"
  by (induction s) (auto intro!: grows_intros split: prod.splits)

lemma grows_minimize_st: "(\<And>a. grows (f a)) \<Longrightarrow> grows (minimize_st slsqp f x0 bnds)"
  unfolding minimize_st_def by (intro grows_intros grows_run_st)

lemma grows_stageA: "grows (stageA_moment_st c q)"
  unfolding stageA_moment_st_def np_cumsum_def mul_s_def div_s_def norm_st_def
  by (intro grows_intros)

lemma grows_stageB: "grows (stageB_moment_st c q)"
  unfolding stageB_moment_st_def np_cumsum_def mul_s_def div_s_def norm_st_def
  by (intro grows_intros)

lemma grows_unpack: "grows (unpack a)"
  unfolding unpack_def index_def by (intro grows_intros)

lemma grows_package_st: "grows (package_st m x)"
  unfolding package_st_def Let_def len_def add_s_def mul_s_def div_s_def add_a_def
  by (cases x) (auto intro!: grows_intros)

lemma grows_synthesis_st:
  "grows (synthesis_st slsqp c q g1 g2 g3 nrm dmin dmax smin smax mmin mmax)"
  unfolding synthesis_st_def Let_def
  by (intro grows_intros grows_stageA grows_stageB grows_minimize_st grows_fun_st grows_unpack
      grows_package_st)

lemma nth_append_old: "a < length h \<Longrightarrow> (h @ ext) ! a = h ! a"
  by (simp add: nth_append)

lemma fun_st_value:
  assumes "x < length h" "c < length h" "m < length h" "h ! x = [k, s, m0]"
  shows "fst (fun_st x c m nrm h) = fun_loss (k, s, m0) (h ! c) (h ! m) nrm"
  using assms
  unfolding fun_st_def index_def len_def add_s_def mul_s_def div_s_def add_a_def sub_a_def
    norm_st_def fun_loss_def bindP_assoc
  by (simp add: nth_append lift_def bindE_def Let_def split: sum.splits)

lemma stage_moment_st_value:
  assumes "c < length h" "q < length h"
  shows "case stageA_moment_st c q h of
           (Inl e, h') \<Rightarrow> stageA_moment (h ! c) (h ! q) = Inl e
         | (Inr a, h') \<Rightarrow> length h \<le> a \<and> a < length h' \<and>
                            stageA_moment (h ! c) (h ! q) = Inr (h' ! a)"
  using assms
  unfolding stageA_moment_st_def np_cumsum_def mul_s_def div_s_def norm_st_def
    stageA_moment_def bindP_assoc
  by (simp add: nth_append lift_def new_def bindE_def Let_def split: sum.splits)

lemma grows_D: "grows m \<Longrightarrow> m h = (r, h') \<Longrightarrow> \<exists>ext. h' = h @ ext"
  by (auto simp: grows_def dest: spec[of _ h])

lemma run_st_value:
  assumes "c < length h" "m < length h"
  shows "case run_st s (\<lambda>x. fun_st x c m nrm) h of
           (Inl e, h') \<Rightarrow> run s (\<lambda>p. fun_loss p (h ! c) (h ! m) nrm) = Inl e
         | (Inr (a, ok), h') \<Rightarrow> length h \<le> a \<and> a < length h' \<and>
              (\<exists>p1 p2 p3. h' ! a = [p1, p2, p3] \<and>
                 run s (\<lambda>p. fun_loss p (h ! c) (h ! m) nrm)
                   = Inr \<lparr>res_x = (p1, p2, p3), res_success = ok\<rparr>)"
  using assms
proof (induction s arbitrary: h)
  case (Return r)
  then show ?case by (cases r) (simp add: ret_def split: prod.splits)
next
  case (Raise e)
  then show ?case by (simp add: lift_def)
next
  case (Eval p k)
  obtain p1 p2 p3 where p: "p = (p1, p2, p3)" by (cases p) auto
  let ?h1 = "h @ [[p1, p2, p3]]"
  obtain r h2 where f: "fun_st (length h) c m nrm ?h1 = (r, h2)"
    by (cases "fun_st (length h) c m nrm ?h1")
  have r: "r = fun_loss p (h ! c) (h ! m) nrm"
    using fun_st_value[of "length h" ?h1 c m p1 p2 p3 nrm] f Eval.prems
    by (simp add: nth_append p)
  from grows_D[OF grows_fun_st f] obtain ext where h2: "h2 = ?h1 @ ext" by blast
  have step: "run_st (Eval p k) (\<lambda>x. fun_st x c m nrm) h
      = (case r of Inl e \<Rightarrow> (Inl e, h2) | Inr v \<Rightarrow> run_st (k v) (\<lambda>x. fun_st x c m nrm) h2)"
    unfolding p run_st.simps prod.case bindP_new using f by (simp add: bindP_def)
  show ?case
  proof (cases r)
    case (Inl e)
    then show ?thesis using r unfolding step by simp
  next
    case (Inr v)
    have c2: "c < length h2" "m < length h2" using Eval.prems h2 by simp_all
    have same: "h2 ! c = h ! c" "h2 ! m = h ! m" using Eval.prems h2 by (simp_all add: nth_append)
    have len: "length h \<le> length h2" using h2 by simp
    show ?thesis
      using Eval.IH[of "k v" h2, OF rangeI c2] Inr r len unfolding step
      by (auto simp: same split: prod.splits sum.splits)
  qed
qed

lemma stageB_moment_st_unfold: "stageB_moment_st c q = stageA_moment_st c q"
  unfolding stageB_moment_st_def stageA_moment_st_def by (rule refl)

lemma unpack_value: "h ! a = [p1, p2, p3] \<Longrightarrow> unpack a h = (Inr (p1, p2, p3), h)"
  unfolding unpack_def index_def bindP_assoc by (simp add: ret_def)

lemma package_st_value:
  "mB < length h \<Longrightarrow> package_st mB x h =
     (Inr (length h + 4, mB, length h + 3, snd (snd (snd (package (h ! mB) x)))),
      h @ [vadd_s (h ! mB) (snd (snd x)),
           arange (length (h ! mB)),
           vmul_s (arange (length (h ! mB))) (fst (snd x)),
           fst (snd (snd (package (h ! mB) x))),
           fst (package (h ! mB) x)])"
  unfolding package_st_def len_def add_s_def mul_s_def div_s_def add_a_def bindP_assoc Let_def
  by (cases x)
     (simp add: nth_append moment_shapes_agree[unfolded arange_def vadd_s_def vmul_s_def]
        package_def Let_def new_def ret_def arange_def vadd_s_def vmul_s_def broadcast2_same)

lemma minimize_st_value:
  assumes "h ! x0 = [g1, g2, g3]" "c < length h" "m < length h"
  shows "case minimize_st slsqp (\<lambda>x. fun_st x c m nrm) x0 b h of
           (Inl e, h') \<Rightarrow> minimize slsqp (\<lambda>p. fun_loss p (h ! c) (h ! m) nrm) (g1, g2, g3) b = Inl e
         | (Inr (a, ok), h') \<Rightarrow> length h \<le> a \<and> a < length h' \<and>
              (\<exists>p1 p2 p3. h' ! a = [p1, p2, p3] \<and>
                 minimize slsqp (\<lambda>p. fun_loss p (h ! c) (h ! m) nrm) (g1, g2, g3) b
                   = Inr \<lparr>res_x = (p1, p2, p3), res_success = ok\<rparr>)"
  using run_st_value[OF assms(2,3), of "slsqp (g1, g2, g3) b" nrm] assms(1)
  unfolding minimize_def by (simp add: minimize_st_def)

lemma bindP_step:
  "m h = (r, h1) \<Longrightarrow> bindP m f h = (case r of Inl e \<Rightarrow> (Inl e, h1) | Inr v \<Rightarrow> f v h1)"
  by (simp add: bindP_def split: sum.splits)

lemma nth_append_new:
  "(h @ [a, b, c, d, e]) ! (length h + 3) = d" "(h @ [a, b, c, d, e]) ! (length h + 4) = e"
  by (simp_all add: nth_append)

lemma package_moment: "fst (snd (package M x)) = M"
  by (cases x) (simp add: package_def Let_def)

lemma stageB_part_value:
  assumes c: "c < length h" and q: "q < length h"
    and x0: "x0 < length h" "h ! x0 = [p1, p2, p3]"
    and M: "stageA_moment (h ! c) (h ! q) = Inr M"
  shows "case bindP (stageB_moment_st c q) (\<lambda>m_null.
              bindP (minimize_st slsqp (\<lambda>x. fun_st x c m_null nrm) x0 None) (\<lambda>res.
              bindP (unpack (fst res)) (\<lambda>x.
              package_st m_null x))) h of
           (Inl e, h') \<Rightarrow> stageB_run slsqp (h ! c) M nrm (p1, p2, p3) = Inl e
         | (Inr (c_h, m_null, m, d), h') \<Rightarrow>
             length h \<le> c_h \<and> c_h < length h' \<and> length h \<le> m_null \<and> m_null < length h' \<and>
             length h \<le> m \<and> m < length h' \<and> distinct [c_h, m_null, m] \<and>
             (\<exists>rB. stageB_run slsqp (h ! c) M nrm (p1, p2, p3) = Inr rB \<and>
                   (h' ! c_h, h' ! m_null, h' ! m, d) = package M (res_x rB))"
proof -
  obtain rB h2 where B: "stageB_moment_st c q h = (rB, h2)"
    by (cases "stageB_moment_st c q h")
  from grows_D[OF grows_stageB B] obtain e2 where h2: "h2 = h @ e2" by blast
  from stage_moment_st_value[OF c q] B M obtain mB where rB: "rB = Inr mB"
    and mB: "length h \<le> mB" "mB < length h2" "h2 ! mB = M"
    by (cases rB) (auto simp: stageB_moment_st_unfold)
  have v2: "h2 ! c = h ! c" "h2 ! x0 = [p1, p2, p3]" "c < length h2"
    using c x0 h2 by (simp_all add: nth_append)
  obtain rr h3 where Mi: "minimize_st slsqp (\<lambda>x. fun_st x c mB nrm) x0 None h2 = (rr, h3)"
    by (cases "minimize_st slsqp (\<lambda>x. fun_st x c mB nrm) x0 None h2")
  from grows_D[OF grows_minimize_st Mi] grows_fun_st obtain e3 where h3: "h3 = h2 @ e3" by blast
  note mv = minimize_st_value[OF v2(2) v2(3) mB(2), of slsqp nrm None, unfolded Mi v2(1) mB(3)]
  note sB = bindP_step[of "stageB_moment_st c q" h, OF B]
  note sM = bindP_step[of "minimize_st slsqp (\<lambda>x. fun_st x c mB nrm) x0 None" h2, OF Mi]
  show ?thesis
  proof (cases rr)
    case (Inl e)
    then show ?thesis
      using mv by (simp add: sB rB sM stageB_run_def)
  next
    case (Inr res)
    obtain a ok where res: "res = (a, ok)" by (cases res)
    from mv Inr res obtain r1 r2 r3 where a: "length h2 \<le> a" "a < length h3"
      and ha: "h3 ! a = [r1, r2, r3]"
      and run: "stageB_run slsqp (h ! c) M nrm (p1, p2, p3)
                  = Inr \<lparr>res_x = (r1, r2, r3), res_success = ok\<rparr>"
      by (auto simp: stageB_run_def)
    have mB3: "mB < length h3" "h3 ! mB = M" using mB h3 by (simp_all add: nth_append)
    have len: "length h \<le> length h3" using h2 h3 by simp
    show ?thesis
      using mB mB3 len run
      by (simp add: sB rB sM Inr res
          bindP_step[of "unpack a" h3, OF unpack_value[OF ha]] package_st_value[OF mB3(1)]
          nth_append_new nth_append prod_eq_iff package_moment)
  qed
qed

lemma synthesis_st_value:
  assumes c: "c < length h" and q: "q < length h"
  shows "case synthesis_st slsqp c q g1 g2 g3 nrm dmin dmax smin smax mmin mmax h of
           (Inl e, h') \<Rightarrow>
             synthesis slsqp (h ! c) (h ! q) g1 g2 g3 nrm dmin dmax smin smax mmin mmax = Inl e
         | (Inr (c_h, m_null, m, d), h') \<Rightarrow>
             length h \<le> c_h \<and> c_h < length h' \<and> length h \<le> m_null \<and> m_null < length h' \<and>
             length h \<le> m \<and> m < length h' \<and> distinct [c_h, m_null, m] \<and>
             synthesis slsqp (h ! c) (h ! q) g1 g2 g3 nrm dmin dmax smin smax mmin mmax
               = Inr (h' ! c_h, h' ! m_null, h' ! m, d)"
proof -
  let ?B = "((dmin, dmax), (smin, smax), (mmin, mmax))"
  let ?h1 = "h @ [[g1, g2, g3]]"
  have c1: "c < length ?h1" "q < length ?h1" using c q by simp_all
  have v1: "?h1 ! c = h ! c" "?h1 ! q = h ! q" using c q by (simp_all add: nth_append)
  obtain rA h2 where A: "stageA_moment_st c q ?h1 = (rA, h2)"
    by (cases "stageA_moment_st c q ?h1")
  from grows_D[OF grows_stageA A] obtain e2 where h2: "h2 = ?h1 @ e2" by blast
  note sA = bindP_step[of "stageA_moment_st c q" ?h1, OF A]
  note av = stage_moment_st_value[OF c1, unfolded A v1]
  show ?thesis
  proof (cases rA)
    case (Inl e)
    then show ?thesis
      using av by (simp add: stageA_moment_baseline)
  next
    case (Inr mA)
    with av have mA: "length ?h1 \<le> mA" "mA < length h2"
      and M: "stageA_moment (h ! c) (h ! q) = Inr (h2 ! mA)" by simp_all
    let ?M = "h2 ! mA"
    have Mb: "baseline (h ! c) (h ! q) = ?M" using M by (simp add: stageA_moment_baseline)
    have v2: "h2 ! c = h ! c" "h2 ! q = h ! q" "h2 ! length h = [g1, g2, g3]"
      "c < length h2" "q < length h2"
      using c q h2 by (simp_all add: nth_append)
    obtain rr h3 where Mi:
      "minimize_st slsqp (\<lambda>x. fun_st x c mA (Ord 2)) (length h) (Some ?B) h2 = (rr, h3)"
      by (cases "minimize_st slsqp (\<lambda>x. fun_st x c mA (Ord 2)) (length h) (Some ?B) h2")
    from grows_D[OF grows_minimize_st Mi] grows_fun_st obtain e3 where h3: "h3 = h2 @ e3"
      by blast
    note sM = bindP_step[of "minimize_st slsqp (\<lambda>x. fun_st x c mA (Ord 2)) (length h) (Some ?B)"
        h2, OF Mi]
    note mv = minimize_st_value[OF v2(3) v2(4) mA(2), of slsqp "Ord 2" "Some ?B",
        unfolded Mi v2(1)]
    show ?thesis
    proof (cases rr)
      case (Inl e)
      then show ?thesis
        using mv
        by (simp add: synthesis_st_def synthesis_unfold Mb sA Inr sM bindE_def stageA_run_def)
    next
      case rrInr: (Inr res)
      obtain a ok where res: "res = (a, ok)" by (cases res)
      from mv rrInr res obtain p1 p2 p3 where a: "length h2 \<le> a" "a < length h3"
        and ha: "h3 ! a = [p1, p2, p3]"
        and run: "stageA_run slsqp (h ! c) ?M (g1, g2, g3) ?B
                    = Inr \<lparr>res_x = (p1, p2, p3), res_success = ok\<rparr>"
        by (auto simp: stageA_run_def)
      let ?h4 = "h3 @ [[p1, p2, p3]]"
      have c4: "c < length ?h4" "q < length ?h4" "length h3 < length ?h4"
        "?h4 ! length h3 = [p1, p2, p3]"
        using v2 h3 by simp_all
      have v4: "?h4 ! c = h ! c" "?h4 ! q = h ! q"
        using v2 h3 by (simp_all add: nth_append)
      have M4: "stageA_moment (?h4 ! c) (?h4 ! q) = Inr ?M" using M v4 by simp
      let ?P = "bindP (stageB_moment_st c q) (\<lambda>m_null.
              bindP (minimize_st slsqp (\<lambda>x. fun_st x c m_null nrm) (length h3) None) (\<lambda>res.
              bindP (unpack (fst res)) (\<lambda>x.
              package_st m_null x)))"
      obtain rF hF where F: "?P ?h4 = (rF, hF)" by (cases "?P ?h4")
      note bv = stageB_part_value[OF c4(1,2,3,4) M4, of slsqp nrm, unfolded v4 F]
      have len: "length h \<le> length ?h4" using h2 h3 by simp
      have top: "synthesis_st slsqp c q g1 g2 g3 nrm dmin dmax smin smax mmin mmax h = (rF, hF)"
        unfolding F[symmetric]
        by (simp add: synthesis_st_def sA Inr sM rrInr res
            bindP_step[of "unpack a" h3, OF unpack_value[OF ha]])
      have pure: "synthesis slsqp (h ! c) (h ! q) g1 g2 g3 nrm dmin dmax smin smax mmin mmax
          = bindE (stageB_run slsqp (h ! c) ?M nrm (p1, p2, p3)) (\<lambda>rB. Inr (package ?M (res_x rB)))"
        by (simp add: synthesis_unfold Mb run bindE_def)
      show ?thesis
      proof (cases rF)
        case (Inl e)
        then show ?thesis using bv by (simp add: top pure bindE_def)
      next
        case (Inr out)
        obtain a1 a2 a3 d where out: "out = (a1, a2, a3, d)" by (cases out)
        from bv Inr out obtain rB where
          fr: "length ?h4 \<le> a1" "a1 < length hF" "length ?h4 \<le> a2" "a2 < length hF"
            "length ?h4 \<le> a3" "a3 < length hF" "distinct [a1, a2, a3]"
          and rB: "stageB_run slsqp (h ! c) ?M nrm (p1, p2, p3) = Inr rB"
          and pk: "(hF ! a1, hF ! a2, hF ! a3, d) = package ?M (res_x rB)"
          by auto
        show ?thesis
          using fr len pk by (simp add: top Inr out pure rB bindE_def)
      qed
    qed
  qed
qed

lemma grows_take: "h' = h @ ext \<Longrightarrow> take (length h) h' = h"
  by simp

text \<open>
  C10. Neither \<open>synthesis\<close> nor \<open>fun\<close> mutates an array it is given. After a call of
  \<open>synthesis\<close>, whether it returns or raises, every array that existed before is
  unchanged, in particular \<open>c\<close> and \<open>q\<close>, and the three arrays it returns are new,
  pairwise different arrays. After a call of \<open>fun\<close> every array that existed before is
  unchanged, in particular \<open>x\<close>, \<open>c\<close> and the baseline moment.
\<close>

theorem inputs_not_mutated:
  "(c < length h \<and> q < length h \<and>
    synthesis_st slsqp c q g1 g2 g3 nrm dmin dmax smin smax mmin mmax h = (r, h') \<longrightarrow>
      take (length h) h' = h \<and> h' ! c = h ! c \<and> h' ! q = h ! q \<and>
      (r = Inr (c_h, m_null, m, d) \<longrightarrow>
         length h \<le> c_h \<and> c_h < length h' \<and> length h \<le> m_null \<and> m_null < length h' \<and>
         length h \<le> m \<and> m < length h' \<and> distinct [c_h, m_null, m])) \<and>
   (x < length h \<and> c < length h \<and> mbar < length h \<and> fun_st x c mbar nrm h = (r2, h2) \<longrightarrow>
      take (length h) h2 = h \<and> h2 ! x = h ! x \<and> h2 ! c = h ! c \<and> h2 ! mbar = h ! mbar)"
proof -
  have syn: "take (length h) h' = h \<and> h' ! c = h ! c \<and> h' ! q = h ! q \<and>
      (r = Inr (c_h, m_null, m, d) \<longrightarrow>
         length h \<le> c_h \<and> c_h < length h' \<and> length h \<le> m_null \<and> m_null < length h' \<and>
         length h \<le> m \<and> m < length h' \<and> distinct [c_h, m_null, m])"
    if a: "c < length h" "q < length h"
      "synthesis_st slsqp c q g1 g2 g3 nrm dmin dmax smin smax mmin mmax h = (r, h')"
  proof -
    from grows_D[OF grows_synthesis_st a(3)] obtain ext where e: "h' = h @ ext" by blast
    have fresh: "length h \<le> c_h \<and> c_h < length h' \<and> length h \<le> m_null \<and> m_null < length h' \<and>
         length h \<le> m \<and> m < length h' \<and> distinct [c_h, m_null, m]"
      if "r = Inr (c_h, m_null, m, d)"
      using synthesis_st_value[OF a(1,2), of slsqp g1 g2 g3 nrm dmin dmax smin smax mmin mmax]
        a(3) that
      by simp
    show ?thesis using e a(1,2) fresh by (simp add: nth_append)
  qed
  have obj: "take (length h) h2 = h \<and> h2 ! x = h ! x \<and> h2 ! c = h ! c \<and> h2 ! mbar = h ! mbar"
    if a: "x < length h" "c < length h" "mbar < length h" "fun_st x c mbar nrm h = (r2, h2)"
  proof -
    from grows_D[OF grows_fun_st a(4)] obtain ext where e: "h2 = h @ ext" by blast
    show ?thesis using e a(1-3) by (simp add: nth_append)
  qed
  show ?thesis using syn obj by blast
qed

lemmas store_defs = synthesis_st_def stageA_moment_st_def stageB_moment_st_def minimize_st_def
  fun_st_def unpack_def package_st_def index_def len_def np_cumsum_def add_s_def mul_s_def
  div_s_def add_a_def sub_a_def norm_st_def bindP_assoc new_def ret_def lift_def



lemma store_example:
  "fst (synthesis_st (probe_solver True) 0 1 (Fin 1) (Fin 0) (Fin 0) (Ord 1) NInf PInf NInf PInf NInf PInf
          example_store)
     = Inr (33, 20, 32, [''dyn_stiff'' \<mapsto> Fin 1, ''s_0'' \<mapsto> Fin 0, ''m_0'' \<mapsto> Fin 0])"
  by (simp add: example_store_def store_defs numpy_defs solver_defs Let_def nth_append)

theorem inputs_not_mutated_witness:
  "snd (synthesis_st (probe_solver True) 0 1 (Fin 1) (Fin 0) (Fin 0) (Ord 1) NInf PInf NInf PInf NInf PInf
          example_store) ! 0 = [Fin 1] \<and>
   snd (synthesis_st (probe_solver True) 0 1 (Fin 1) (Fin 0) (Fin 0) (Ord 1) NInf PInf NInf PInf NInf PInf
          example_store) ! 1 = [Fin 1] \<and>
   fst (synthesis_st (probe_solver True) 0 1 (Fin 1) (Fin 0) (Fin 0) (Ord 1) NInf PInf NInf PInf NInf PInf
          example_store)
     = Inr (33, 20, 32, [''dyn_stiff'' \<mapsto> Fin 1, ''s_0'' \<mapsto> Fin 0, ''m_0'' \<mapsto> Fin 0]) \<and>
   length example_store = 3 \<and>
   snd (fun_st 2 0 1 (Ord 1) example_store) ! 2 = [Fin 1, Fin 0, Fin 0] \<and>
   snd (fun_st 2 0 1 (Ord 1) example_store) ! 0 = [Fin 1] \<and>
   snd (fun_st 2 0 1 (Ord 1) example_store) ! 1 = [Fin 1]"
proof -
  let ?S = "synthesis_st (probe_solver True) 0 1 (Fin 1) (Fin 0) (Fin 0) (Ord 1) NInf PInf NInf PInf NInf PInf
          example_store"
  let ?F = "fun_st 2 0 1 (Ord 1) example_store"
  have l: "length example_store = 3" and v: "example_store ! 0 = [Fin 1]" "example_store ! 1 = [Fin 1]"
    "example_store ! 2 = [Fin 1, Fin 0, Fin 0]"
    by (simp_all add: example_store_def)
  have s: "?S = (fst ?S, snd ?S)" and f: "?F = (fst ?F, snd ?F)" by simp_all
  show ?thesis
    using inputs_not_mutated[where c = 0 and h = example_store and q = 1
        and slsqp = "probe_solver True" and ?g1.0 = "Fin 1" and ?g2.0 = "Fin 0" and ?g3.0 = "Fin 0"
        and nrm = "Ord 1" and dmin = NInf and dmax = PInf and smin = NInf and smax = PInf
        and mmin = NInf and mmax = PInf and r = "fst ?S" and h' = "snd ?S"
        and c_h = 33 and m_null = 20 and m = 32
        and d = "[''dyn_stiff'' \<mapsto> Fin 1, ''s_0'' \<mapsto> Fin 0, ''m_0'' \<mapsto> Fin 0]"
        and x = 2 and mbar = 1 and ?r2.0 = "fst ?F" and ?h2.0 = "snd ?F"]
      l v s f store_example
    by simp
qed

lemma stage_moment_st_Inr:
  assumes "c < length h" "q < length h"
  obtains a h' where "stageA_moment_st c q h = (Inr a, h')" "length h \<le> a" "a < length h'"
    "h' ! a = baseline (h ! c) (h ! q)"
proof -
  obtain r h' where A: "stageA_moment_st c q h = (r, h')" by (cases "stageA_moment_st c q h")
  from stage_moment_st_value[OF assms] A obtain a where "r = Inr a" "length h \<le> a"
    "a < length h'" "h' ! a = baseline (h ! c) (h ! q)"
    by (cases r) (auto simp: stageA_moment_baseline)
  with A that show ?thesis by blast
qed

text \<open>
  C7. The baseline moment that stage B of \<open>synthesis\<close> uses is the one stage A used.
  Over values: \<open>synthesis\<close>, which computes the moment twice, is the program that computes
  it once and gives that one moment to the stage-A minimization, to the stage-B
  minimization and to the outputs. Over the store, where the recomputation could see
  what stage A left behind: when stage A has computed its moment into the array \<open>mA\<close>
  and its minimization has returned, stage B computes its moment into another array
  \<open>mB\<close>, the contents of \<open>mB\<close> are the contents \<open>mA\<close> had when stage A's objective read
  it and still has, the rest of \<open>synthesis\<close> is the stage-B minimization of the
  objective that reads \<open>mB\<close>, and \<open>mB\<close> is the baseline moment the call returns.
\<close>

theorem stage_B_uses_stage_A_moment:
  assumes c: "c < length h" and q: "q < length h"
    and A: "stageA_moment_st c q (h @ [[g1, g2, g3]]) = (Inr mA, hA)"
    and MA: "minimize_st slsqp (\<lambda>x. fun_st x c mA (Ord 2)) (length h)
               (Some ((dmin, dmax), (smin, smax), (mmin, mmax))) hA = (Inr (xa, ok), h1)"
  shows "synthesis slsqp cv qv g1 g2 g3 nrm dmin dmax smin smax mmin mmax
           = bindE (stageA_moment cv qv) (\<lambda>M.
             bindE (stageA_run slsqp cv M (g1, g2, g3)
                      ((dmin, dmax), (smin, smax), (mmin, mmax))) (\<lambda>rA.
             bindE (stageB_run slsqp cv M nrm (res_x rA)) (\<lambda>rB.
             Inr (package M (res_x rB))))) \<and>
         (\<exists>p1 p2 p3 mB hB.
            h1 ! xa = [p1, p2, p3] \<and>
            stageB_moment_st c q (h1 @ [[p1, p2, p3]]) = (Inr mB, hB) \<and>
            mB \<noteq> mA \<and> hB ! mB = hA ! mA \<and> hB ! mA = hA ! mA \<and>
            synthesis_st slsqp c q g1 g2 g3 nrm dmin dmax smin smax mmin mmax h
              = bindP (minimize_st slsqp (\<lambda>x. fun_st x c mB nrm) (length h1) None) (\<lambda>res.
                bindP (unpack (fst res)) (\<lambda>x.
                package_st mB x)) hB \<and>
            (synthesis_st slsqp c q g1 g2 g3 nrm dmin dmax smin smax mmin mmax h
               = (Inr (c_h, m_null, m, d), h')
               \<longrightarrow> m_null = mB \<and> h' ! m_null = hA ! mA))"
proof
  show "synthesis slsqp cv qv g1 g2 g3 nrm dmin dmax smin smax mmin mmax
           = bindE (stageA_moment cv qv) (\<lambda>M.
             bindE (stageA_run slsqp cv M (g1, g2, g3)
                      ((dmin, dmax), (smin, smax), (mmin, mmax))) (\<lambda>rA.
             bindE (stageB_run slsqp cv M nrm (res_x rA)) (\<lambda>rB.
             Inr (package M (res_x rB)))))"
    by (simp add: synthesis_unfold stageA_moment_baseline bindE_def)
next
  let ?B = "((dmin, dmax), (smin, smax), (mmin, mmax))"
  let ?h0 = "h @ [[g1, g2, g3]]"
  have c0: "c < length ?h0" "q < length ?h0" using c q by simp_all
  from grows_D[OF grows_stageA A] obtain e1 where hA: "hA = ?h0 @ e1" by blast
  from stage_moment_st_value[OF c0] A have mA: "length ?h0 \<le> mA" "mA < length hA"
    and vA: "stageA_moment (?h0 ! c) (?h0 ! q) = Inr (hA ! mA)" by simp_all
  have vA': "hA ! mA = baseline (h ! c) (h ! q)"
    using vA c q by (simp add: stageA_moment_baseline nth_append)
  have lA: "hA ! length h = [g1, g2, g3]" "c < length hA" "q < length hA"
    and sA: "hA ! c = h ! c" "hA ! q = h ! q"
    using c q hA by (simp_all add: nth_append)
  from grows_D[OF grows_minimize_st MA] grows_fun_st obtain e2 where h1: "h1 = hA @ e2"
    by blast
  from minimize_st_value[OF lA(1) lA(2) mA(2), of slsqp "Ord 2" "Some ?B"] MA
  obtain p1 p2 p3 where xa: "xa < length h1" and px: "h1 ! xa = [p1, p2, p3]"
    by auto
  let ?h2 = "h1 @ [[p1, p2, p3]]"
  have c2: "c < length ?h2" "q < length ?h2"
    and s2: "?h2 ! c = h ! c" "?h2 ! q = h ! q"
    using c q hA h1 by (simp_all add: nth_append)
  from stage_moment_st_Inr[OF c2] obtain mB hB
    where B: "stageA_moment_st c q ?h2 = (Inr mB, hB)"
      and mB: "length ?h2 \<le> mB" "mB < length hB"
      and vB: "hB ! mB = baseline (?h2 ! c) (?h2 ! q)"
    by blast
  from grows_D[OF grows_stageA B] obtain e3 where hB: "hB = ?h2 @ e3" by blast
  have ne: "mB \<noteq> mA" using mB(1) mA(2) h1 by simp
  have eq1: "hB ! mB = hA ! mA" using vB vA' s2 by simp
  have eq2: "hB ! mA = hA ! mA" using mA(2) hB h1 by (simp add: nth_append)
  let ?P = "bindP (minimize_st slsqp (\<lambda>x. fun_st x c mB nrm) (length h1) None) (\<lambda>res.
                bindP (unpack (fst res)) (\<lambda>x. package_st mB x))"
  have top: "synthesis_st slsqp c q g1 g2 g3 nrm dmin dmax smin smax mmin mmax h = ?P hB"
    by (simp add: synthesis_st_def
        bindP_step[of "stageA_moment_st c q" ?h0, OF A]
        bindP_step[of "minimize_st slsqp (\<lambda>x. fun_st x c mA (Ord 2)) (length h) (Some ?B)" hA,
          OF MA]
        bindP_step[of "unpack xa" h1, OF unpack_value[OF px]]
        bindP_step[of "stageB_moment_st c q" ?h2, OF B[folded stageB_moment_st_unfold]])
  have out: "m_null = mB \<and> h' ! m_null = hA ! mA"
    if r: "synthesis_st slsqp c q g1 g2 g3 nrm dmin dmax smin smax mmin mmax h
             = (Inr (c_h, m_null, m, d), h')"
  proof -
    let ?Mi = "minimize_st slsqp (\<lambda>x. fun_st x c mB nrm) (length h1) None"
    obtain rr h3 where Mi: "?Mi hB = (rr, h3)" by (cases "?Mi hB")
    from grows_D[OF grows_minimize_st Mi] grows_fun_st obtain e4 where h3: "h3 = hB @ e4"
      by blast
    have lB: "hB ! length h1 = [p1, p2, p3]" "c < length hB"
      using c hA h1 hB by (simp_all add: nth_append)
    note mv = minimize_st_value[OF lB(1) lB(2) mB(2), of slsqp nrm None, unfolded Mi]
    note sM = bindP_step[of ?Mi hB, OF Mi]
    from r have P: "?P hB = (Inr (c_h, m_null, m, d), h')" by (simp add: top)
    show ?thesis
    proof (cases rr)
      case (Inl e)
      with P show ?thesis by (simp add: sM)
    next
      case (Inr res)
      obtain a ok' where res: "res = (a, ok')" by (cases res)
      from mv Inr res obtain r1 r2 r3 where ha: "h3 ! a = [r1, r2, r3]" by auto
      have mB3: "mB < length h3" "h3 ! mB = hB ! mB" using mB(2) h3 by (simp_all add: nth_append)
      from P have "m_null = mB \<and> h' ! mB = h3 ! mB"
        using mB3(1)
        by (auto simp: sM Inr res bindP_step[of "unpack a" h3, OF unpack_value[OF ha]]
            package_st_value[OF mB3(1)] nth_append)
      then show ?thesis using mB3(2) eq1 by simp
    qed
  qed
  show "\<exists>p1 p2 p3 mB hB.
            h1 ! xa = [p1, p2, p3] \<and>
            stageB_moment_st c q (h1 @ [[p1, p2, p3]]) = (Inr mB, hB) \<and>
            mB \<noteq> mA \<and> hB ! mB = hA ! mA \<and> hB ! mA = hA ! mA \<and>
            synthesis_st slsqp c q g1 g2 g3 nrm dmin dmax smin smax mmin mmax h
              = bindP (minimize_st slsqp (\<lambda>x. fun_st x c mB nrm) (length h1) None) (\<lambda>res.
                bindP (unpack (fst res)) (\<lambda>x.
                package_st mB x)) hB \<and>
            (synthesis_st slsqp c q g1 g2 g3 nrm dmin dmax smin smax mmin mmax h
               = (Inr (c_h, m_null, m, d), h')
               \<longrightarrow> m_null = mB \<and> h' ! m_null = hA ! mA)"
    using px B[folded stageB_moment_st_unfold] ne eq1 eq2 top out by blast
qed

theorem stage_B_uses_stage_A_moment_witness:
  "fst (stageA_moment_st 0 1 (example_store @ [[Fin 1, Fin 0, Fin 0]])) = Inr 7 \<and>
   fst (synthesis_st (probe_solver True) 0 1 (Fin 1) (Fin 0) (Fin 0) (Ord 1)
          NInf PInf NInf PInf NInf PInf example_store)
     = Inr (33, 20, 32, [''dyn_stiff'' \<mapsto> Fin 1, ''s_0'' \<mapsto> Fin 0, ''m_0'' \<mapsto> Fin 0]) \<and>
   snd (synthesis_st (probe_solver True) 0 1 (Fin 1) (Fin 0) (Fin 0) (Ord 1)
          NInf PInf NInf PInf NInf PInf example_store) ! 20
     = snd (stageA_moment_st 0 1 (example_store @ [[Fin 1, Fin 0, Fin 0]])) ! 7"
proof -
  let ?A = "stageA_moment_st 0 1 (example_store @ [[Fin 1, Fin 0, Fin 0]])"
  let ?B = "((NInf, PInf), (NInf, PInf), (NInf, PInf))"
  let ?M = "minimize_st (probe_solver True) (\<lambda>x. fun_st x 0 7 (Ord 2)) (length example_store)
              (Some ?B) (snd ?A)"
  let ?S = "synthesis_st (probe_solver True) 0 1 (Fin 1) (Fin 0) (Fin 0) (Ord 1)
              NInf PInf NInf PInf NInf PInf example_store"
  have l: "0 < length example_store" "1 < length example_store"
    by (simp_all add: example_store_def)
  have fa: "fst ?A = Inr 7"
    by (simp add: example_store_def store_defs numpy_defs Let_def nth_append)
  then have a: "?A = (Inr 7, snd ?A)" by (metis prod.collapse)
  have fm: "fst ?M = Inr (15, True)"
    by (simp add: example_store_def store_defs numpy_defs solver_defs Let_def nth_append)
  then have m: "?M = (Inr (15, True), snd ?M)" by (metis prod.collapse)
  have s: "?S = (Inr (33, 20, 32, [''dyn_stiff'' \<mapsto> Fin 1, ''s_0'' \<mapsto> Fin 0, ''m_0'' \<mapsto> Fin 0]),
                 snd ?S)"
    using store_example by (metis prod.collapse)
  from stage_B_uses_stage_A_moment[OF l a m, where nrm = "Ord 1" and c_h = 33 and m_null = 20
      and m = 32 and d = "[''dyn_stiff'' \<mapsto> Fin 1, ''s_0'' \<mapsto> Fin 0, ''m_0'' \<mapsto> Fin 0]"
      and h' = "snd ?S"] s
  have "snd ?S ! 20 = snd ?A ! 7" by auto
  then show ?thesis using fa store_example by simp
qed

end
